theory Spec2Isabelle
  imports Main "HOL-Library.AList" "HOL-Library.Multiset"
begin

section \<open>Errors, file entries and the remote share\<close>

text \<open>
  The SMB storage of \<^verbatim>\<open>modules/storage/smb/smb.go\<close> talks to a remote share through
  the go-smb2 client. The share is not part of the repository, so the model takes it as a
  record of operations over an abstract remote state \<open>'fs\<close>: every operation receives the
  state and returns its error (\<open>None\<close> is Go's \<open>nil\<close>) together with the state that follows.
\<close>

type_synonym path = string
type_synonym time = int

datatype error = NotExist string | Failure string

fun IsNotExist :: "error \<Rightarrow> bool" where
  "IsNotExist (NotExist m) = True"
| "IsNotExist (Failure m) = False"

fun Error :: "error \<Rightarrow> string" where
  "Error (NotExist m) = m"
| "Error (Failure m) = m"

text \<open>
  What a method with result type \<open>error\<close> hands back: \<open>nil\<close>, one error, or the
  \<open>*multierror.Error\<close> built by \<open>multierror.Append\<close>; a run-time panic is a fourth outcome.
\<close>

datatype result = ReturnNil | Return error | ReturnMulti "error list" | Panic

definition ErrorOrNil :: "error list \<Rightarrow> result" where
  "ErrorOrNil es = (if es = [] then ReturnNil else ReturnMulti es)"

record FileInfo =
  Name :: string
  IsSymlink :: bool
  ModTime :: time

text \<open>The mutating calls a method issues on the share, in the order it issues them.\<close>

datatype call =
    RemoveCall path
  | RenameCall path path
  | SymlinkCall path path
  | RemoveAllCall path
  | MkdirAllCall path
  | CreateCall path
  | CopyCall path string

record 'fs share =
  ReadDir :: "path \<Rightarrow> 'fs \<Rightarrow> error + FileInfo list"
  Readlink :: "path \<Rightarrow> 'fs \<Rightarrow> error + path"
  Remove :: "path \<Rightarrow> 'fs \<Rightarrow> error option \<times> 'fs"
  Rename :: "path \<Rightarrow> path \<Rightarrow> 'fs \<Rightarrow> error option \<times> 'fs"
  Symlink :: "path \<Rightarrow> path \<Rightarrow> 'fs \<Rightarrow> error option \<times> 'fs"
  RemoveAll :: "path \<Rightarrow> 'fs \<Rightarrow> error option \<times> 'fs"
  MkdirAll :: "path \<Rightarrow> 'fs \<Rightarrow> error option \<times> 'fs"
  Create :: "path \<Rightarrow> 'fs \<Rightarrow> error option \<times> 'fs"
  Copy :: "path \<Rightarrow> string \<Rightarrow> 'fs \<Rightarrow> error option \<times> 'fs"

section \<open>The storage package and the host\<close>

text \<open>
  Modelled from the spec: the retention periods of package \<^verbatim>\<open>modules/storage\<close> (its file
  is not among the sources). The spec names five string-named buckets and the order in
  which descending rotation visits them, yearly first and hourly last.
\<close>

datatype Period = Hourly | Daily | Weekly | Monthly | Yearly

fun String :: "Period \<Rightarrow> string" where
  "String Hourly = ''hourly''"
| "String Daily = ''daily''"
| "String Weekly = ''weekly''"
| "String Monthly = ''monthly''"
| "String Yearly = ''yearly''"

definition RetentionPeriodsList :: "Period list" where
  "RetentionPeriodsList = [Yearly, Monthly, Weekly, Daily, Hourly]"

text \<open>Of the \<open>Retention\<close> struct the SMB storage reads two fields.\<close>

record Retention =
  UseCount :: bool
  Months :: int

text \<open>
  Everything else the storage calls and the sources do not contain: Go's \<open>path\<close> and
  \<open>filepath\<close> functions, \<open>GetRetention\<close> and the destination resolvers of the storage
  package, the clock behind \<open>misc.GetDateTimeNow\<close>, the reader of a local file, and the
  order in which the Go run time enumerates the keys of a map (\<open>rangeKeys\<close>, which the
  language leaves open). \<open>Rel\<close> is \<open>filepath.Rel\<close> with its error dropped, as the caller does.
  A \<open>time\<close> is an instant counted from Go's zero time, so \<open>IsZero\<close> is equality with 0 and
  a change of location leaves it as it is.
\<close>

record host =
  Join :: "path list \<Rightarrow> path"
  Dir :: "path \<Rightarrow> path"
  Rel :: "path \<Rightarrow> path \<Rightarrow> path"
  GetRetention :: "Period \<Rightarrow> Retention \<Rightarrow> int \<times> time"
  GetDateTimeNow :: "string \<Rightarrow> string"
  rangeKeys :: "path list \<Rightarrow> path list"
  GetLimitedFileReader :: "path \<Rightarrow> error + string"
  GetIncBackupDstAndLinks ::
    "path \<Rightarrow> string \<Rightarrow> path \<Rightarrow> error + (path \<times> path \<times> (path \<times> path) list)"
  GetDescBackupDstAndLinks ::
    "path \<Rightarrow> string \<Rightarrow> path \<Rightarrow> Retention \<Rightarrow> error + (path \<times> (path \<times> path) list)"

text \<open>
  A Go map is kept as an association list with distinct keys; \<open>rangeMap\<close> is the
  \<open>for ... range\<close> over it, given the order in which the keys come.
\<close>

definition rangeMap :: "(string list \<Rightarrow> string list) \<Rightarrow> (string \<times> 'v) list \<Rightarrow> (string \<times> 'v) list" where
  "rangeMap order m =
     List.map_filter (\<lambda>k. map_option (Pair k) (map_of m k)) (order (map fst m))"

section \<open>The SMB storage\<close>

record SMB =
  name :: string
  backupPath :: path
  rateLimit :: int
  rotateEnabled :: bool
  Retention :: Retention

text \<open>
  A method's running state: the errors appended so far (\<open>errs\<close>), the remote state, and
  the mutating calls issued so far.
\<close>

record 'fs pass =
  errs :: "error list"
  remote :: 'fs
  calls :: "call list"

definition appendErr :: "error \<Rightarrow> 'fs pass \<Rightarrow> 'fs pass" where
  "appendErr e st = st\<lparr>errs := errs st @ [e]\<rparr>"

definition issue :: "('fs \<Rightarrow> error option \<times> 'fs) \<Rightarrow> call \<Rightarrow> 'fs pass \<Rightarrow> error option \<times> 'fs pass" where
  "issue opn c st =
     (case opn (remote st) of (r, fs') \<Rightarrow> (r, st\<lparr>remote := fs', calls := calls st @ [c]\<rparr>))"

definition quoted :: "string \<Rightarrow> string" where
  "quoted s = [CHR 0x27] @ s @ [CHR 0x27]"

definition moveFile :: "'fs share \<Rightarrow> path \<Rightarrow> path \<Rightarrow> 'fs pass \<Rightarrow> error option \<times> 'fs pass" where
  "moveFile sh oldPath newPath st =
     (case issue (Remove sh newPath) (RemoveCall newPath) st of
        (Some err, st1) \<Rightarrow>
          (Some (Failure (''Failed to delete file '' @ quoted oldPath @ '' with next error: ''
                  @ Error err @ '' '')), st1)
      | (None, st1) \<Rightarrow>
          (case issue (Rename sh oldPath newPath) (RenameCall oldPath newPath) st1 of
             (Some err, st2) \<Rightarrow>
               (Some (Failure (''Failed to move file '' @ quoted oldPath @ '' with next error: ''
                       @ Error err @ '' '')), st2)
           | (None, st2) \<Rightarrow> (None, st2)))"

subsection \<open>Descending rotation: reconciling one deletion candidate\<close>

record fileLinks =
  wLink :: path
  dLink :: path

type_synonym ptr = nat

text \<open>
  \<open>filesToDeleteMap\<close> maps a path to a \<open>*fileLinks\<close>: an address into the list of
  allocated structs, or \<open>None\<close> for the nil pointer. \<open>toDel\<close> is the comma-ok test.
\<close>

definition toDel :: "(path \<times> ptr option) list \<Rightarrow> path \<Rightarrow> bool" where
  "toDel filesToDeleteMap p = (map_of filesToDeleteMap p \<noteq> None)"

datatype ctl = Continue | Break

text \<open>
  The body of the loop over \<open>filesToDeleteMap\<close> (smb.go, lines 273 to 323), in its three
  parts. The first is the block under \<open>fl.wLink != ""\<close>; it yields whether the loop goes
  on, and the flags \<open>delFile\<close> and \<open>moved\<close>.
\<close>

definition weeklyPart ::
  "'fs share \<Rightarrow> host \<Rightarrow> (path \<times> ptr option) list \<Rightarrow> path \<Rightarrow> fileLinks \<Rightarrow> 'fs pass
     \<Rightarrow> ctl \<times> bool \<times> bool \<times> 'fs pass" where
  "weeklyPart sh h filesToDeleteMap file fl st =
     (if wLink fl \<noteq> [] \<and> \<not> toDel filesToDeleteMap (wLink fl) then
        (case moveFile sh file (wLink fl) st of
           (r, st1) \<Rightarrow>
             let st2 = (case r of Some err \<Rightarrow> appendErr err st1 | None \<Rightarrow> st1);
                 moved = (r = None)
             in
               if \<not> toDel filesToDeleteMap (dLink fl) then
                 (case issue (Remove sh (dLink fl)) (RemoveCall (dLink fl)) st2 of
                    (Some err, st3) \<Rightarrow> (Break, False, moved, appendErr err st3)
                  | (None, st3) \<Rightarrow>
                      let relative = Rel h (Dir h (dLink fl)) (wLink fl) in
                      (case issue (Symlink sh relative (dLink fl)) (SymlinkCall relative (dLink fl)) st3 of
                         (Some err, st4) \<Rightarrow> (Continue, False, moved, appendErr err st4)
                       | (None, st4) \<Rightarrow> (Continue, False, moved, st4)))
               else (Continue, False, moved, st2))
      else (Continue, True, False, st))"

definition dailyPart ::
  "'fs share \<Rightarrow> (path \<times> ptr option) list \<Rightarrow> path \<Rightarrow> fileLinks \<Rightarrow> bool \<Rightarrow> bool \<Rightarrow> 'fs pass
     \<Rightarrow> bool \<times> 'fs pass" where
  "dailyPart sh filesToDeleteMap file fl delFile moved st =
     (if dLink fl \<noteq> [] \<and> \<not> moved \<and> \<not> toDel filesToDeleteMap (dLink fl) then
        (case moveFile sh file (dLink fl) st of
           (Some err, st1) \<Rightarrow> (False, appendErr err st1)
         | (None, st1) \<Rightarrow> (False, st1))
      else (delFile, st))"

definition removePart :: "'fs share \<Rightarrow> path \<Rightarrow> bool \<Rightarrow> 'fs pass \<Rightarrow> 'fs pass" where
  "removePart sh file delFile st =
     (if delFile then
        (case issue (Remove sh file) (RemoveCall file) st of
           (Some err, st1) \<Rightarrow> appendErr err st1
         | (None, st1) \<Rightarrow> st1)
      else st)"

definition reconcile ::
  "'fs share \<Rightarrow> host \<Rightarrow> (path \<times> ptr option) list \<Rightarrow> path \<Rightarrow> fileLinks \<Rightarrow> 'fs pass
     \<Rightarrow> ctl \<times> 'fs pass" where
  "reconcile sh h filesToDeleteMap file fl st =
     (case weeklyPart sh h filesToDeleteMap file fl st of
        (Break, delFile, moved, st1) \<Rightarrow> (Break, st1)
      | (Continue, delFile, moved, st1) \<Rightarrow>
          (case dailyPart sh filesToDeleteMap file fl delFile moved st1 of
             (delFile', st2) \<Rightarrow> (Continue, removePart sh file delFile' st2)))"

text \<open>
  The loop itself, over the entries in the order the run time enumerates them. Reading
  \<open>fl.wLink\<close> through a nil pointer panics (the flag of the result); \<open>break\<close> leaves the
  loop. An address stored in the map is always one that was allocated before.
\<close>

fun reconcileAll ::
  "'fs share \<Rightarrow> host \<Rightarrow> fileLinks list \<Rightarrow> (path \<times> ptr option) list
     \<Rightarrow> (path \<times> ptr option) list \<Rightarrow> 'fs pass \<Rightarrow> bool \<times> 'fs pass" where
  "reconcileAll sh h heap filesToDeleteMap [] st = (False, st)"
| "reconcileAll sh h heap filesToDeleteMap ((file, None) # rest) st = (True, st)"
| "reconcileAll sh h heap filesToDeleteMap ((file, Some a) # rest) st =
     (case reconcile sh h filesToDeleteMap file (heap ! a) st of
        (Break, st1) \<Rightarrow> (False, st1)
      | (Continue, st1) \<Rightarrow> reconcileAll sh h heap filesToDeleteMap rest st1)"

subsection \<open>Descending rotation: collecting the deletion candidates\<close>

text \<open>
  The first loop of \<open>deleteDescBackup\<close> (smb.go, lines 194 to 271) only reads the share.
  Its maps hold pointers, and a struct reached through \<open>filesMap\<close> may already be shared
  with \<open>filesToDeleteMap\<close>, so the structs live in a list addressed by position.
\<close>

record collect =
  heap :: "fileLinks list"
  filesMap :: "(path \<times> ptr) list"
  filesToDeleteMap :: "(path \<times> ptr option) list"
  readErrs :: "error list"

definition setLink :: "Period \<Rightarrow> path \<Rightarrow> fileLinks \<Rightarrow> fileLinks" where
  "setLink p fPath fl =
     (case p of Weekly \<Rightarrow> fl\<lparr>wLink := fPath\<rparr> | Daily \<Rightarrow> fl\<lparr>dLink := fPath\<rparr> | _ \<Rightarrow> fl)"

definition alloc :: "path \<Rightarrow> collect \<Rightarrow> collect" where
  "alloc fPath c =
     c\<lparr>heap := heap c @ [\<lparr>wLink = [], dLink = []\<rparr>],
       filesMap := AList.update fPath (length (heap c)) (filesMap c)\<rparr>"

definition scanFile ::
  "'fs share \<Rightarrow> host \<Rightarrow> 'fs \<Rightarrow> Period \<Rightarrow> path \<Rightarrow> collect \<Rightarrow> FileInfo \<Rightarrow> collect" where
  "scanFile sh h fs p bakDir c file =
     (let fPath = Join h [bakDir, Name file] in
      if IsSymlink file then
        (case Readlink sh fPath fs of
           Inl err \<Rightarrow> c\<lparr>readErrs := readErrs c @ [err]\<rparr>
         | Inr link \<Rightarrow>
             let linkPath = Join h [bakDir, link] in
             alloc fPath
               (case map_of (filesMap c) linkPath of
                  Some a \<Rightarrow> c\<lparr>heap := (heap c)[a := setLink p fPath (heap c ! a)]\<rparr>
                | None \<Rightarrow> c))
      else alloc fPath c)"

text \<open>
  Count mode (lines 235 to 247). \<open>sort.Slice\<close> orders by modification time; among equal
  times Go fixes no order, the model keeps the order of the listing. Reslicing past the
  length, which a negative \<open>retentionCount\<close> asks for, is a panic (\<open>None\<close>).
\<close>

definition selectCount :: "bool \<Rightarrow> int \<Rightarrow> FileInfo list \<Rightarrow> FileInfo list option" where
  "selectCount safety retentionCount smbFiles =
     (let sorted = sort_key ModTime smbFiles;
          retentionCount' = (if \<not> safety then retentionCount - 1 else retentionCount)
      in if retentionCount' \<le> int (length sorted) then
           (if 0 \<le> retentionCount' then
              Some (take (nat (int (length sorted) - retentionCount')) sorted)
            else None)
         else Some [])"

text \<open>Age mode (lines 249 to 260): the entries older than \<open>retentionDate\<close>, in place.\<close>

definition selectAge :: "time \<Rightarrow> FileInfo list \<Rightarrow> FileInfo list" where
  "selectAge retentionDate smbFiles = filter (\<lambda>file. ModTime file < retentionDate) smbFiles"

definition markFile :: "host \<Rightarrow> path \<Rightarrow> collect \<Rightarrow> FileInfo \<Rightarrow> collect" where
  "markFile h bakDir c file =
     (if Name file = ''..'' \<or> Name file = ''.'' then c
      else
        let fPath = Join h [bakDir, Name file] in
        c\<lparr>filesToDeleteMap :=
            AList.update fPath (map_of (filesMap c) fPath) (filesToDeleteMap c)\<rparr>)"

fun collectAll ::
  "'fs share \<Rightarrow> host \<Rightarrow> SMB \<Rightarrow> string \<Rightarrow> bool \<Rightarrow> 'fs \<Rightarrow> Period list \<Rightarrow> collect
     \<Rightarrow> result + collect" where
  "collectAll sh h s ofsPart safety fs [] c = Inr c"
| "collectAll sh h s ofsPart safety fs (p # ps) c =
     (case GetRetention h p (Retention s) of
        (retentionCount, retentionDate) \<Rightarrow>
          if retentionCount = 0 \<and> retentionDate = 0 then collectAll sh h s ofsPart safety fs ps c
          else
            let bakDir = Join h [backupPath s, ofsPart, String p] in
            (case ReadDir sh bakDir fs of
               Inl err \<Rightarrow>
                 if IsNotExist err then collectAll sh h s ofsPart safety fs ps c
                 else Inl (Return err)
             | Inr smbFiles \<Rightarrow>
                 let c1 = foldl (scanFile sh h fs p bakDir) c smbFiles in
                 (case (if UseCount (Retention s)
                        then selectCount safety retentionCount smbFiles
                        else Some (selectAge retentionDate smbFiles)) of
                    None \<Rightarrow> Inl Panic
                  | Some selected \<Rightarrow>
                      collectAll sh h s ofsPart safety fs ps
                        (foldl (markFile h bakDir) c1 selected))))"

definition deleteDescBackup ::
  "'fs share \<Rightarrow> host \<Rightarrow> SMB \<Rightarrow> string \<Rightarrow> bool \<Rightarrow> 'fs \<Rightarrow> result \<times> 'fs \<times> call list" where
  "deleteDescBackup sh h s ofsPart safety fs =
     (case collectAll sh h s ofsPart safety fs RetentionPeriodsList
             \<lparr>heap = [], filesMap = [], filesToDeleteMap = [], readErrs = []\<rparr> of
        Inl r \<Rightarrow> (r, fs, [])
      | Inr c \<Rightarrow>
          (case reconcileAll sh h (heap c) (filesToDeleteMap c) (rangeMap (rangeKeys h) (filesToDeleteMap c))
                  \<lparr>errs = readErrs c, remote = fs, calls = []\<rparr> of
             (True, st) \<Rightarrow> (Panic, remote st, calls st)
           | (False, st) \<Rightarrow> (ErrorOrNil (errs st), remote st, calls st)))"

subsection \<open>Incremental rotation\<close>

text \<open>
  \<open>strconv.Atoi\<close> with its error dropped, as \<open>deleteIncBackup\<close> calls it: an optional sign
  and decimal digits; 0 on a syntax error and the nearest 64-bit value on overflow.
\<close>

definition isDigit :: "char \<Rightarrow> bool" where
  "isDigit c = (48 \<le> (of_char c :: nat) \<and> (of_char c :: nat) \<le> 57)"

definition digitsValue :: "string \<Rightarrow> int" where
  "digitsValue ds = foldl (\<lambda>n c. 10 * n + (int (of_char c) - 48)) 0 ds"

definition Atoi :: "string \<Rightarrow> int" where
  "Atoi s =
     (let neg = (take 1 s = ''-'');
          ds = (if take 1 s = ''-'' \<or> take 1 s = ''+'' then drop 1 s else s)
      in if ds = [] \<or> \<not> list_all isDigit ds then 0
         else if neg then max (- (2 ^ 63)) (- digitsValue ds)
         else min (2 ^ 63 - 1) (digitsValue ds))"

text \<open>
  \<open>rx.MatchString\<close> for the pattern \<open>month_\d\d\<close>: the pattern is not anchored, so it asks
  for an occurrence anywhere in the name.
\<close>

definition monthHere :: "string \<Rightarrow> bool" where
  "monthHere s =
     (take 6 s = ''month_'' \<and>
      (case drop 6 s of a # b # rest \<Rightarrow> isDigit a \<and> isDigit b | _ \<Rightarrow> False))"

fun rxMatchString :: "string \<Rightarrow> bool" where
  "rxMatchString [] = False"
| "rxMatchString (c # cs) = (monthHere (c # cs) \<or> rxMatchString cs)"

text \<open>\<open>strings.Split\<close> at a one-character separator.\<close>

fun Split :: "string \<Rightarrow> char \<Rightarrow> string list" where
  "Split [] sep = [[]]"
| "Split (c # cs) sep =
     (if c = sep then [] # Split cs sep
      else (case Split cs sep of w # ws \<Rightarrow> (c # w) # ws | [] \<Rightarrow> [[c]]))"

text \<open>\<open>dirParts[1]\<close> read as a number; indexing past the parts would panic (\<open>None\<close>).\<close>

definition dirMonth :: "string \<Rightarrow> int option" where
  "dirMonth dirName =
     (case Split dirName (CHR ''_'') of
        first # second # rest \<Rightarrow> Some (Atoi second)
      | _ \<Rightarrow> None)"

fun removeOldMonths ::
  "'fs share \<Rightarrow> host \<Rightarrow> path \<Rightarrow> int \<Rightarrow> FileInfo list \<Rightarrow> 'fs pass \<Rightarrow> bool \<times> 'fs pass" where
  "removeOldMonths sh h backupDir lastMonth [] st = (False, st)"
| "removeOldMonths sh h backupDir lastMonth (dir # dirs) st =
     (let dirName = Name dir in
      if rxMatchString dirName then
        (case dirMonth dirName of
           None \<Rightarrow> (True, st)
         | Some m \<Rightarrow>
             if m < lastMonth then
               (case issue (RemoveAll sh (Join h [backupDir, dirName]))
                       (RemoveAllCall (Join h [backupDir, dirName])) st of
                  (Some err, st1) \<Rightarrow>
                    removeOldMonths sh h backupDir lastMonth dirs (appendErr err st1)
                | (None, st1) \<Rightarrow> removeOldMonths sh h backupDir lastMonth dirs st1)
             else removeOldMonths sh h backupDir lastMonth dirs st)
      else removeOldMonths sh h backupDir lastMonth dirs st)"

text \<open>
  The year directory and the month bound of a rotation that is not full (lines 340 to
  351). \<open>intMoy\<close>, \<open>s.Months\<close> and \<open>lastMonth\<close> are of Go's type \<open>int\<close>, which has 64 bits
  on a 64-bit platform, and the subtraction and the addition wrap around: \<open>int64\<close> is the
  value a result has after that.
\<close>

definition int64 :: "int \<Rightarrow> int" where
  "int64 n = (n + 2 ^ 63) mod 2 ^ 64 - 2 ^ 63"

definition lastMonthAndYear :: "host \<Rightarrow> SMB \<Rightarrow> int \<times> string" where
  "lastMonthAndYear h s =
     (let intMoy = Atoi (GetDateTimeNow h ''moy'');
          lastMonth = int64 (intMoy - Months (Retention s))
      in if lastMonth > 0 then (lastMonth, GetDateTimeNow h ''year'')
         else (int64 (lastMonth + 12), GetDateTimeNow h ''previous_year''))"

definition deleteIncBackup ::
  "'fs share \<Rightarrow> host \<Rightarrow> SMB \<Rightarrow> string \<Rightarrow> bool \<Rightarrow> 'fs \<Rightarrow> result \<times> 'fs \<times> call list" where
  "deleteIncBackup sh h s ofsPart full fs =
     (if full then
        (let backupDir = Join h [backupPath s, ofsPart] in
         case issue (RemoveAll sh backupDir) (RemoveAllCall backupDir)
                \<lparr>errs = [], remote = fs, calls = []\<rparr> of
           (Some err, st) \<Rightarrow> (ErrorOrNil (errs (appendErr err st)), remote st, calls st)
         | (None, st) \<Rightarrow> (ErrorOrNil (errs st), remote st, calls st))
      else
        (case lastMonthAndYear h s of
           (lastMonth, year) \<Rightarrow>
             let backupDir = Join h [backupPath s, ofsPart, year] in
             (case ReadDir sh backupDir fs of
                Inl err \<Rightarrow> (Return err, fs, [])
              | Inr dirs \<Rightarrow>
                  (case removeOldMonths sh h backupDir lastMonth dirs
                          \<lparr>errs = [], remote = fs, calls = []\<rparr> of
                     (True, st) \<Rightarrow> (Panic, remote st, calls st)
                   | (False, st) \<Rightarrow> (ErrorOrNil (errs st), remote st, calls st)))))"

subsection \<open>The entry point of rotation\<close>

text \<open>
  Modelled from the spec: the backup types of package \<^verbatim>\<open>misc\<close> (not among the sources;
  the sources name \<open>IncFiles\<close>, \<open>PostgresqlBasebackup\<close> and \<open>MongoDB\<close>) with the strings
  the spec gives them. Of a job, rotation asks its name, its type and its safety flag.
\<close>

datatype BackupType =
    DescFiles | IncFiles | Mysql | MysqlXtrabackup | Postgresql
  | PostgresqlBasebackup | MongoDB | Redis | External

fun typeString :: "BackupType \<Rightarrow> string" where
  "typeString DescFiles = ''desc_files''"
| "typeString IncFiles = ''inc_files''"
| "typeString Mysql = ''mysql''"
| "typeString MysqlXtrabackup = ''mysql_xtrabackup''"
| "typeString Postgresql = ''postgresql''"
| "typeString PostgresqlBasebackup = ''postgresql_basebackup''"
| "typeString MongoDB = ''mongodb''"
| "typeString Redis = ''redis''"
| "typeString External = ''external''"

record Job =
  GetName :: string
  GetType :: BackupType
  IsBackupSafety :: bool

definition DeleteOldBackups ::
  "'fs share \<Rightarrow> host \<Rightarrow> SMB \<Rightarrow> string \<Rightarrow> Job \<Rightarrow> bool \<Rightarrow> 'fs \<Rightarrow> result \<times> 'fs \<times> call list" where
  "DeleteOldBackups sh h s ofsPart job full fs =
     (if \<not> rotateEnabled s then (ReturnNil, fs, [])
      else if GetType job = IncFiles then deleteIncBackup sh h s ofsPart full fs
      else deleteDescBackup sh h s ofsPart (IsBackupSafety job) fs)"

subsection \<open>Delivery\<close>

text \<open>
  \<open>copy\<close> (lines 141 to 170): the remote directory, the remote file, the local reader,
  and the transfer of the bytes, stopping at the first error.
\<close>

definition copy ::
  "'fs share \<Rightarrow> host \<Rightarrow> path \<Rightarrow> path \<Rightarrow> 'fs pass \<Rightarrow> error option \<times> 'fs pass" where
  "copy sh h srcPath dstPath st =
     (let remDir = Dir h dstPath in
      case issue (MkdirAll sh remDir) (MkdirAllCall remDir) st of
        (Some err, st1) \<Rightarrow> (Some err, st1)
      | (None, st1) \<Rightarrow>
          (case issue (Create sh dstPath) (CreateCall dstPath) st1 of
             (Some err, st2) \<Rightarrow> (Some err, st2)
           | (None, st2) \<Rightarrow>
               (case GetLimitedFileReader h srcPath of
                  Inl err \<Rightarrow> (Some err, st2)
                | Inr bytes \<Rightarrow> issue (Copy sh dstPath bytes) (CopyCall dstPath bytes) st2)))"

fun makeLinks ::
  "'fs share \<Rightarrow> host \<Rightarrow> (path \<times> path) list \<Rightarrow> 'fs pass \<Rightarrow> error option \<times> 'fs pass" where
  "makeLinks sh h [] st = (None, st)"
| "makeLinks sh h ((dst, src) # links) st =
     (let remDir = Dir h dst in
      case issue (MkdirAll sh remDir) (MkdirAllCall remDir) st of
        (Some err, st1) \<Rightarrow> (Some err, st1)
      | (None, st1) \<Rightarrow>
          (case issue (Symlink sh src dst) (SymlinkCall src dst) st1 of
             (Some err, st2) \<Rightarrow> (Some err, st2)
           | (None, st2) \<Rightarrow> makeLinks sh h links st2))"

definition DeliveryBackup ::
  "'fs share \<Rightarrow> host \<Rightarrow> SMB \<Rightarrow> path \<Rightarrow> string \<Rightarrow> string \<Rightarrow> 'fs
     \<Rightarrow> error option \<times> 'fs \<times> call list" where
  "DeliveryBackup sh h s tmpBackupFile ofs bakType fs =
     (case (if bakType = typeString IncFiles
            then GetIncBackupDstAndLinks h tmpBackupFile ofs (backupPath s)
            else map_sum id (\<lambda>(bakDstPath, links). (bakDstPath, [], links))
                   (GetDescBackupDstAndLinks h tmpBackupFile ofs (backupPath s) (Retention s))) of
        Inl err \<Rightarrow> (Some err, fs, [])
      | Inr (bakDstPath, mtdDstPath, links) \<Rightarrow>
          (case (if mtdDstPath \<noteq> []
                 then copy sh h (tmpBackupFile @ ''.inc'') bakDstPath
                        \<lparr>errs = [], remote = fs, calls = []\<rparr>
                 else (None, \<lparr>errs = [], remote = fs, calls = []\<rparr>)) of
             (Some err, st1) \<Rightarrow> (Some err, remote st1, calls st1)
           | (None, st1) \<Rightarrow>
               (case copy sh h tmpBackupFile bakDstPath st1 of
                  (Some err, st2) \<Rightarrow> (Some err, remote st2, calls st2)
                | (None, st2) \<Rightarrow>
                    (case makeLinks sh h (rangeMap (rangeKeys h) links) st2 of
                       (r, st3) \<Rightarrow> (r, remote st3, calls st3)))))"

section \<open>Backup jobs\<close>

text \<open>
  \<open>DoBackup\<close> has the same text in the PostgreSQL base backup job
  (\<^verbatim>\<open>modules/backup/psql_physical/psql_physical.go\<close>, lines 207 to 263) and in the MongoDB
  job; the two differ in the target struct and in \<open>createTmpBackup\<close>. The model is written
  once, over the type \<open>'tgt\<close> of targets.
\<close>

text \<open>
  The keys under which \<open>DoBackup\<close> stores metrics: constants of package
  \<^verbatim>\<open>modules/metrics\<close>, which is not among the sources.
\<close>

datatype metric = BackupOk | BackupTime | DeliveryOk | DeliveryTime | BackupSize | BackupTimestamp

text \<open>
  A metric value is a \<open>float64\<close>. Every value \<open>DoBackup\<close> stores is the conversion of an
  integer, which is an integer again: the nearest one with 53 significant bits, ties to
  the even one. \<open>quot\<close> is Go's integer division, which truncates.
\<close>

function excess :: "int \<Rightarrow> nat" where
  "excess a = (if a < 2 ^ 53 then 0 else Suc (excess (a div 2)))"
  by pat_completeness auto
termination
  by (relation "measure nat") auto

declare excess.simps [simp del]

definition float64 :: "int \<Rightarrow> int" where
  "float64 n =
     (let a = \<bar>n\<bar>; e = excess a; q = a div 2 ^ e; r = a mod 2 ^ e
      in if 2 * r > 2 ^ e \<or> (2 * r = 2 ^ e \<and> odd q) then sgn n * ((q + 1) * 2 ^ e)
         else sgn n * (q * 2 ^ e))"

definition quot :: "int \<Rightarrow> int \<Rightarrow> int" where
  "quot a b = sgn a * sgn b * (\<bar>a\<bar> div \<bar>b\<bar>)"

record DumpObject =
  TmpFile :: path
  Delivered :: bool

record 'tgt job =
  jobName :: string
  tmpDir :: path
  needToMakeBackup :: bool
  safetyBackup :: bool
  deferredCopying :: bool
  diskRateLimit :: int
  targets :: "(string \<times> 'tgt) list"
  dumpedObjects :: "(string \<times> DumpObject) list"
  appMetrics :: "string \<Rightarrow> metric \<Rightarrow> int"

text \<open>
  \<open>SetOfsMetrics\<close> stores every pair of its argument (a map literal) under the target;
  \<open>Init\<close> has made the map of values of every target before. \<open>SetDumpObjectDelivered\<close>
  works on a copy of the entry, which is the zero struct when the key is missing.
\<close>

definition SetOfsMetrics :: "string \<Rightarrow> (metric \<times> int) list \<Rightarrow> 'tgt job \<Rightarrow> 'tgt job" where
  "SetOfsMetrics ofs metricsMap j =
     j\<lparr>appMetrics :=
         (\<lambda>ofs' m. if ofs' = ofs
                    then (case map_of metricsMap m of Some v \<Rightarrow> v | None \<Rightarrow> appMetrics j ofs' m)
                    else appMetrics j ofs' m)\<rparr>"

definition SetDumpObjectDelivered :: "string \<Rightarrow> 'tgt job \<Rightarrow> 'tgt job" where
  "SetDumpObjectDelivered ofs j =
     (let dumpObj = (case map_of (dumpedObjects j) ofs of
                       Some d \<Rightarrow> d | None \<Rightarrow> \<lparr>TmpFile = [], Delivered = False\<rparr>)
      in j\<lparr>dumpedObjects := AList.update ofs (dumpObj\<lparr>Delivered := True\<rparr>) (dumpedObjects j)\<rparr>)"

text \<open>
  \<open>Storages.Delivery\<close> is not among the sources. It receives the job as an
  \<open>interfaces.Job\<close>, so what it can change of the job it changes through the two setters
  above: its outcome is its error and the setter calls it makes. Of the error the model
  has what \<open>multierror.Append\<close> adds to the errors of the run: nothing for nil, the error
  for a plain error, and the parts of a multi-error one by one.
\<close>

datatype jobCall = SetOfsMetricsCall string "(metric \<times> int) list" | SetDumpObjectDeliveredCall string

fun applyJobCall :: "'tgt job \<Rightarrow> jobCall \<Rightarrow> 'tgt job" where
  "applyJobCall j (SetOfsMetricsCall ofs metricsMap) = SetOfsMetrics ofs metricsMap j"
| "applyJobCall j (SetDumpObjectDeliveredCall ofs) = SetDumpObjectDelivered ofs j"

text \<open>
  The machine a job runs on, with state \<open>'w\<close>: the clock (nanoseconds), the file system
  calls, \<open>misc.GetFileFullPath\<close>, \<open>path.Dir\<close>, the delivery, the order in which the run time
  enumerates the targets, and of the adapter the \<open>gzip\<close> field of a target and
  \<open>createTmpBackup\<close>.
\<close>

record ('w, 'tgt) system =
  Now :: "'w \<Rightarrow> int"
  GetFileFullPath :: "path \<Rightarrow> string \<Rightarrow> string \<Rightarrow> string \<Rightarrow> bool \<Rightarrow> path"
  PathDir :: "path \<Rightarrow> path"
  OsMkdirAll :: "path \<Rightarrow> 'w \<Rightarrow> error option \<times> 'w"
  Stat :: "path \<Rightarrow> 'w \<Rightarrow> (error + int) \<times> 'w"
  Delivery :: "'tgt job \<Rightarrow> 'w \<Rightarrow> error list \<times> jobCall list \<times> 'w"
  rangeTargets :: "string list \<Rightarrow> string list"
  gzipOf :: "'tgt \<Rightarrow> bool"
  createTmpBackup :: "'tgt job \<Rightarrow> path \<Rightarrow> string \<Rightarrow> 'tgt \<Rightarrow> 'w \<Rightarrow> error option \<times> 'w"

text \<open>The state of a run: the job, the machine, and the errors appended so far.\<close>

record ('w, 'tgt) run =
  jobState :: "'tgt job"
  world :: 'w
  jobErrs :: "error list"

text \<open>One call of \<open>j.storages.Delivery(logCh, j)\<close> with what follows it (lines 250 to 253).\<close>

definition deliver :: "('w, 'tgt) system \<Rightarrow> ('w, 'tgt) run \<Rightarrow> ('w, 'tgt) run" where
  "deliver sys r =
     (case Delivery sys (jobState r) (world r) of
        (errParts, jobCalls, w') \<Rightarrow>
          r\<lparr>jobState := foldl applyJobCall (jobState r) jobCalls,
            world := w',
            jobErrs := jobErrs r @ errParts\<rparr>)"





section \<open>The PostgreSQL base backup job\<close>

record target =
  connUrl :: string
  extraKeys :: "string list"
  gzip :: bool

text \<open>
  Of \<open>psql_connect.Params\<close> (not among the sources) \<open>Init\<close> reads \<open>User\<close> and writes
  \<open>User\<close> and \<open>Database\<close>; the URL made of the parameters is kept as its text.
\<close>

record Params =
  User :: string
  Database :: string

record SourceParams =
  SourceName :: string
  ConnectParams :: Params
  ExtraKeys :: "string list"
  Gzip :: bool
  IsSlave :: bool

record JobParams =
  JobName :: string
  TmpDir :: path
  NeedToMakeBackup :: bool
  SafetyBackup :: bool
  DeferredCopying :: bool
  DiskRateLimit :: int
  Sources :: "SourceParams list"

text \<open>
  \<open>regexp.MatchString\<close> with the pattern \<open>(-D|--pgdata=)\<close>: one of the two texts occurs
  somewhere in the key.
\<close>

fun contains :: "string \<Rightarrow> string \<Rightarrow> bool" where
  "contains sub [] = (sub = [])"
| "contains sub (c # cs) = (take (length sub) (c # cs) = sub \<or> contains sub cs)"

definition matched :: "string \<Rightarrow> bool" where
  "matched key = (contains ''-D'' key \<or> contains ''--pgdata='' key)"

text \<open>
  The programs and the server \<open>Init\<close> and \<open>createTmpBackup\<close> call: \<open>exec_cmd.Exec\<close>, the
  functions of \<open>psql_connect\<close>, the start and the wait of the \<open>pg_basebackup\<close> command,
  \<open>targz.Tar\<close>, \<open>os.RemoveAll\<close>, \<open>path.Join\<close>, \<open>path.Dir\<close> and the clock.
\<close>

record TarOpts =
  Src :: path
  Dst :: path
  Incremental :: bool
  TarGzip :: bool
  SaveAbsPath :: bool
  RateLim :: int
  Excludes :: "string list"

record 'w tools =
  Exec :: "string \<Rightarrow> string list \<Rightarrow> 'w \<Rightarrow> error option \<times> 'w"
  GetConnUrl :: "Params \<Rightarrow> string"
  GetConnect :: "string \<Rightarrow> 'w \<Rightarrow> error option \<times> 'w"
  Ping :: "string \<Rightarrow> 'w \<Rightarrow> error option \<times> 'w"
  Start :: "string \<Rightarrow> string list \<Rightarrow> 'w \<Rightarrow> error option \<times> 'w"
  Wait :: "'w \<Rightarrow> error option \<times> 'w"
  Tar :: "TarOpts \<Rightarrow> 'w \<Rightarrow> error option \<times> 'w"
  OsRemoveAll :: "path \<Rightarrow> 'w \<Rightarrow> 'w"
  PathJoin :: "path list \<Rightarrow> path"
  ToolsDir :: "path \<Rightarrow> path"
  DateTimeNow :: "string \<Rightarrow> string"

definition backquoted :: "string \<Rightarrow> string" where
  "backquoted s = [CHR 0x60] @ s @ [CHR 0x60]"

definition initFailed :: "string \<Rightarrow> string \<Rightarrow> error" where
  "initFailed jobName' why = Failure (''Job '' @ backquoted jobName' @ '' init failed. '' @ why)"

text \<open>
  The loop of \<open>Init\<close> over the sources (lines 96 to 131). Every \<open>return\<close> that carries an
  error carries a nil job: the result is the error alone. Registering a source under
  its name gives the target a fresh, empty map of metric values.
\<close>

fun initSources ::
  "'w tools \<Rightarrow> JobParams \<Rightarrow> SourceParams list \<Rightarrow> target job \<Rightarrow> 'w \<Rightarrow> (error + target job) \<times> 'w" where
  "initSources t jp [] j w = (Inr j, w)"
| "initSources t jp (src # rest) j w =
     (if list_ex matched (ExtraKeys src) then
        (Inl (initFailed (JobName jp)
                (''Forbidden usage '' @ [CHR 0x22] @ ''--pgdata|-D'' @ [CHR 0x22]
                 @ '' parameter as extra_keys for '' @ backquoted ''postgresql_basebackup''
                 @ '' jobs type '')), w)
      else
        let cp = (case Split (User (ConnectParams src)) (CHR ''@'') of
                    user # database # others \<Rightarrow>
                      (ConnectParams src)\<lparr>Database := database, User := user\<rparr>
                  | _ \<Rightarrow> ConnectParams src);
            url = GetConnUrl t cp
        in
          (case GetConnect t url w of
             (Some err, w1) \<Rightarrow>
               (Inl (initFailed (JobName jp) (''PSQL connect error: '' @ Error err @ '' '')), w1)
           | (None, w1) \<Rightarrow>
               (case Ping t url w1 of
                  (Some err, w2) \<Rightarrow>
                    (Inl (initFailed (JobName jp)
                            (''PSQL ping check error: '' @ Error err @ '' '')), w2)
                | (None, w2) \<Rightarrow>
                    initSources t jp rest
                      (j\<lparr>targets :=
                           AList.update (SourceName src)
                             \<lparr>connUrl = url, extraKeys = ExtraKeys src, gzip = Gzip src\<rparr>
                             (targets j),
                         appMetrics := (appMetrics j)(SourceName src := (\<lambda>m. 0))\<rparr>)
                      w2)))"

definition Init :: "'w tools \<Rightarrow> JobParams \<Rightarrow> 'w \<Rightarrow> (error + target job) \<times> 'w" where
  "Init t jp w =
     (case Exec t ''pg_basebackup'' [''--version''] w of
        (Some err, w1) \<Rightarrow>
          (Inl (initFailed (JobName jp)
                  (''Can'' @ [CHR 0x27] @ ''t check '' @ backquoted ''pg_basebackup''
                   @ '' version. Please install '' @ backquoted ''pg_basebackup''
                   @ ''. Error: '' @ Error err @ '' '')), w1)
      | (None, w1) \<Rightarrow>
          (case Exec t ''tar'' [''--version''] w1 of
             (Some err, w2) \<Rightarrow>
               (Inl (initFailed (JobName jp)
                       (''Can'' @ [CHR 0x27] @ ''t check '' @ backquoted ''tar''
                        @ '' version. Please install '' @ backquoted ''tar''
                        @ ''. Error: '' @ Error err @ '' '')), w2)
           | (None, w2) \<Rightarrow>
               initSources t jp (Sources jp)
                 \<lparr>jobName = JobName jp, tmpDir = TmpDir jp,
                  needToMakeBackup = NeedToMakeBackup jp, safetyBackup = SafetyBackup jp,
                  deferredCopying = DeferredCopying jp, diskRateLimit = DiskRateLimit jp,
                  targets = [], dumpedObjects = [], appMetrics = (\<lambda>ofs m. 0)\<rparr>
                 w2))"

text \<open>
  The command line of \<open>pg_basebackup\<close> (lines 271 to 290). \<open>units.KB\<close> is 1000; \<open>Itoa\<close>
  prints a number that is not negative, as \<open>%d\<close> does.
\<close>

function Itoa :: "nat \<Rightarrow> string" where
  "Itoa n = (if n < 10 then [char_of (48 + n)] else Itoa (n div 10) @ [char_of (48 + n mod 10)])"
  by pat_completeness auto
termination
  by (relation "measure id") auto

declare Itoa.simps [simp del]

definition basebackupArgs :: "target job \<Rightarrow> target \<Rightarrow> path \<Rightarrow> string list" where
  "basebackupArgs j tgt tmpBasebackupPath =
     (if length (extraKeys tgt) > 0 then extraKeys tgt else [])
     @ [''--dbname='' @ connUrl tgt]
     @ [''--pgdata='' @ tmpBasebackupPath]
     @ [''--format=plain'']
     @ (if diskRateLimit j > 0 then
          (let maxRate = quot (diskRateLimit j) 1000;
               maxRate' = (if maxRate < 32 then 32
                           else if maxRate > 1024 * 1000 then 1024 * 1000 else maxRate)
           in [''--max-rate='' @ Itoa (nat maxRate')])
        else [])"

definition psqlCreateTmpBackup ::
  "'w tools \<Rightarrow> target job \<Rightarrow> path \<Rightarrow> string \<Rightarrow> target \<Rightarrow> 'w \<Rightarrow> error option \<times> 'w" where
  "psqlCreateTmpBackup t j tmpBackupFile tgtName tgt w =
     (let tmpBasebackupPath =
            PathJoin t [ToolsDir t tmpBackupFile,
                        ''pg_basebackup_'' @ tgtName @ ''_'' @ DateTimeNow t []]
      in case Start t ''pg_basebackup'' (basebackupArgs j tgt tmpBasebackupPath) w of
           (Some err, w1) \<Rightarrow> (Some err, w1)
         | (None, w1) \<Rightarrow>
             (case Wait t w1 of
                (Some err, w2) \<Rightarrow> (Some err, w2)
              | (None, w2) \<Rightarrow>
                  (case Tar t \<lparr>Src = tmpBasebackupPath, Dst = tmpBackupFile, Incremental = False,
                               TarGzip = gzip tgt, SaveAbsPath = False,
                               RateLim = diskRateLimit j, Excludes = []\<rparr> w2 of
                     (Some err, w3) \<Rightarrow> (Some err, w3)
                   | (None, w3) \<Rightarrow> (None, OsRemoveAll t tmpBasebackupPath w3))))"

section \<open>A share in memory\<close>

text \<open>
  A small remote file system on which the methods can be run: a list of paths with a
  regular file (modification time and contents), a symlink (modification time and
  target) or a directory at each. A call listed in \<open>bad\<close>
  fails, which lets an example make one operation of the storage fail. The closed
  examples further down run on it.
\<close>

datatype node = File time string | Link time path | Folder time

type_synonym memfs = "(path \<times> node) list"

fun isLink :: "node \<Rightarrow> bool" where
  "isLink (File t bytes) = False"
| "isLink (Link t target) = True"
| "isLink (Folder t) = False"

fun mtime :: "node \<Rightarrow> time" where
  "mtime (File t bytes) = t"
| "mtime (Link t target) = t"
| "mtime (Folder t) = t"

definition baseName :: "path \<Rightarrow> string" where
  "baseName p = rev (takeWhile (\<lambda>c. c \<noteq> CHR ''/'') (rev p))"

definition parentDir :: "path \<Rightarrow> path" where
  "parentDir p = rev (drop 1 (dropWhile (\<lambda>c. c \<noteq> CHR ''/'') (rev p)))"

definition memReadDir :: "path \<Rightarrow> memfs \<Rightarrow> error + FileInfo list" where
  "memReadDir d fs =
     (let entries = filter (\<lambda>(p, n). parentDir p = d) fs in
      if entries = [] then Inl (NotExist d)
      else Inr (map (\<lambda>(p, n). \<lparr>Name = baseName p, IsSymlink = isLink n, ModTime = mtime n\<rparr>)
                  entries))"

definition memReadlink :: "path \<Rightarrow> memfs \<Rightarrow> error + path" where
  "memReadlink p fs =
     (case map_of fs p of Some (Link t target) \<Rightarrow> Inr target | _ \<Rightarrow> Inl (Failure p))"

definition memRemove :: "call list \<Rightarrow> path \<Rightarrow> memfs \<Rightarrow> error option \<times> memfs" where
  "memRemove bad p fs =
     (if List.member bad (RemoveCall p) then (Some (Failure p), fs)
      else if map_of fs p = None then (Some (NotExist p), fs)
      else (None, AList.delete p fs))"

definition memRename :: "call list \<Rightarrow> path \<Rightarrow> path \<Rightarrow> memfs \<Rightarrow> error option \<times> memfs" where
  "memRename bad old new fs =
     (if List.member bad (RenameCall old new) then (Some (Failure old), fs)
      else (case map_of fs old of
              None \<Rightarrow> (Some (NotExist old), fs)
            | Some n \<Rightarrow> (None, AList.update new n (AList.delete old fs))))"

definition memSymlink :: "call list \<Rightarrow> path \<Rightarrow> path \<Rightarrow> memfs \<Rightarrow> error option \<times> memfs" where
  "memSymlink bad target p fs =
     (if List.member bad (SymlinkCall target p) \<or> p = [] \<or> map_of fs p \<noteq> None
      then (Some (Failure p), fs)
      else (None, fs @ [(p, Link 0 target)]))"

definition memRemoveAll :: "call list \<Rightarrow> path \<Rightarrow> memfs \<Rightarrow> error option \<times> memfs" where
  "memRemoveAll bad p fs =
     (if List.member bad (RemoveAllCall p) then (Some (Failure p), fs)
      else (None, filter (\<lambda>(q, n). q \<noteq> p \<and> take (length p + 1) q \<noteq> p @ ''/'') fs))"

definition memCreate :: "call list \<Rightarrow> path \<Rightarrow> memfs \<Rightarrow> error option \<times> memfs" where
  "memCreate bad p fs =
     (if List.member bad (CreateCall p) then (Some (Failure p), fs)
      else (None, AList.update p (File 0 []) fs))"

definition memCopy :: "path \<Rightarrow> string \<Rightarrow> memfs \<Rightarrow> error option \<times> memfs" where
  "memCopy p bytes fs =
     (case map_of fs p of
        Some (File t old) \<Rightarrow> (None, AList.update p (File t bytes) fs)
      | _ \<Rightarrow> (Some (NotExist p), fs))"

definition memShare :: "call list \<Rightarrow> memfs share" where
  "memShare bad =
     \<lparr>ReadDir = memReadDir, Readlink = memReadlink, Remove = memRemove bad,
      Rename = memRename bad, Symlink = memSymlink bad, RemoveAll = memRemoveAll bad,
      MkdirAll = (\<lambda>p fs. (None, fs)), Create = memCreate bad, Copy = memCopy\<rparr>"

text \<open>
  Path functions for the examples. On relative paths whose cleaned form is not empty
  they give what \<open>path.Join\<close>, \<open>path.Dir\<close> and \<open>filepath.Rel\<close> give on Linux.
\<close>

fun cleanComps :: "string list \<Rightarrow> string list \<Rightarrow> string list" where
  "cleanComps acc [] = rev acc"
| "cleanComps acc (c # cs) =
     (if c = [] \<or> c = ''.'' then cleanComps acc cs
      else if c = ''..'' then
        (case acc of
           a # as \<Rightarrow> if a = ''..'' then cleanComps (c # acc) cs else cleanComps as cs
         | [] \<Rightarrow> cleanComps [c] cs)
      else cleanComps (c # acc) cs)"

fun joinSlash :: "string list \<Rightarrow> string" where
  "joinSlash [] = []"
| "joinSlash [c] = c"
| "joinSlash (c # d # cs) = c @ ''/'' @ joinSlash (d # cs)"

definition unixJoin :: "path list \<Rightarrow> path" where
  "unixJoin elems = joinSlash (cleanComps [] (concat (map (\<lambda>e. Split e (CHR ''/'')) elems)))"

definition unixDir :: "path \<Rightarrow> path" where
  "unixDir p =
     (let d = joinSlash (cleanComps [] (butlast (Split p (CHR ''/'')))) in
      if d = [] then ''.'' else d)"

fun dropCommon :: "string list \<Rightarrow> string list \<Rightarrow> string list \<times> string list" where
  "dropCommon (b # bs) (t # ts) = (if b = t then dropCommon bs ts else (b # bs, t # ts))"
| "dropCommon bs ts = (bs, ts)"

definition unixRel :: "path \<Rightarrow> path \<Rightarrow> path" where
  "unixRel basepath targpath =
     (case dropCommon (cleanComps [] (Split basepath (CHR ''/'')))
                      (cleanComps [] (Split targpath (CHR ''/''))) of
        (bs, ts) \<Rightarrow>
          let r = joinSlash (map (\<lambda>b. ''..'') bs @ ts) in if r = [] then ''.'' else r)"

definition unixHost :: host where
  "unixHost =
     \<lparr>Join = unixJoin, Dir = unixDir, Rel = unixRel,
      GetRetention = (\<lambda>p r. (0, 0)),
      GetDateTimeNow = (\<lambda>f. []),
      rangeKeys = (\<lambda>ks. ks),
      GetLimitedFileReader = (\<lambda>p. Inl (NotExist p)),
      GetIncBackupDstAndLinks = (\<lambda>tmp ofs root. Inl (Failure tmp)),
      GetDescBackupDstAndLinks = (\<lambda>tmp ofs root r. Inl (Failure tmp))\<rparr>"

text \<open>
  The storage and the buckets of the examples: root \<open>b\<close>, target \<open>o\<close>, count mode; a
  monthly bucket of three files \<open>a\<close>, \<open>b\<close>, \<open>c\<close> (oldest first), and the same bucket with
  a weekly and a daily symlink to \<open>b\<close>; \<open>threeEntries\<close> is the listing of the monthly
  bucket. \<open>countHost\<close> configures monthly with count 2,
  weekly and daily with count 3, and leaves the other buckets unused.
\<close>

definition exampleSMB :: SMB where
  "exampleSMB =
     \<lparr>name = ''smb'', backupPath = ''b'', rateLimit = 0, rotateEnabled = True,
      Retention = \<lparr>UseCount = True, Months = 3\<rparr>\<rparr>"

definition countHost :: host where
  "countHost =
     unixHost\<lparr>GetRetention :=
       (\<lambda>p r. case p of Monthly \<Rightarrow> (2, 0) | Weekly \<Rightarrow> (3, 0) | Daily \<Rightarrow> (3, 0) | _ \<Rightarrow> (0, 0))\<rparr>"

definition monthlyBucket :: memfs where
  "monthlyBucket =
     [(''b/o/monthly/a'', File 1 []), (''b/o/monthly/b'', File 2 []),
      (''b/o/monthly/c'', File 3 [])]"

definition linkedBuckets :: memfs where
  "linkedBuckets =
     monthlyBucket @
     [(''b/o/weekly/x'', Link 2 ''../monthly/b''), (''b/o/daily/y'', Link 2 ''../monthly/b'')]"

definition threeEntries :: "FileInfo list" where
  "threeEntries =
     [\<lparr>Name = ''a'', IsSymlink = False, ModTime = 1\<rparr>,
      \<lparr>Name = ''b'', IsSymlink = False, ModTime = 2\<rparr>,
      \<lparr>Name = ''c'', IsSymlink = False, ModTime = 3\<rparr>]"

definition descJob :: "bool \<Rightarrow> Job" where
  "descJob safety = \<lparr>GetName = ''job'', GetType = DescFiles, IsBackupSafety = safety\<rparr>"

text \<open>
  The monthly bucket with a weekly symlink to \<open>b\<close> and no daily one.
\<close>

definition weeklyLinked :: memfs where
  "weeklyLinked = monthlyBucket @ [(''b/o/weekly/x'', Link 2 ''../monthly/b'')]"

section \<open>Calls of a rotation pass\<close>

text \<open>
  What a call does to the share, and what a list of calls does when they are made one
  after the other: the errors they return, in order, and the state they leave.
\<close>

fun perform :: "'fs share \<Rightarrow> call \<Rightarrow> 'fs \<Rightarrow> error option \<times> 'fs" where
  "perform sh (RemoveCall p) = Remove sh p"
| "perform sh (RenameCall old new) = Rename sh old new"
| "perform sh (SymlinkCall target p) = Symlink sh target p"
| "perform sh (RemoveAllCall p) = RemoveAll sh p"
| "perform sh (MkdirAllCall p) = MkdirAll sh p"
| "perform sh (CreateCall p) = Create sh p"
| "perform sh (CopyCall p bytes) = Copy sh p bytes"

fun runCalls :: "'fs share \<Rightarrow> call list \<Rightarrow> 'fs \<Rightarrow> error list \<times> 'fs" where
  "runCalls sh [] fs = ([], fs)"
| "runCalls sh (c # cs) fs =
     (case perform sh c fs of
        (r, fs1) \<Rightarrow>
          (case runCalls sh cs fs1 of
             (es, fs2) \<Rightarrow> ((case r of Some err \<Rightarrow> [err] | None \<Rightarrow> []) @ es, fs2)))"

text \<open>
  A state of a method follows another one on a share when its calls are those of the
  other and, after them, further ones, and its remote state is what these further calls
  make of the other's.
\<close>

definition follows :: "'fs share \<Rightarrow> 'fs pass \<Rightarrow> 'fs pass \<Rightarrow> bool" where
  "follows sh st st' =
     (\<exists>new. calls st' = calls st @ new \<and> remote st' = snd (runCalls sh new (remote st)))"

text \<open>
  The deletion candidates with which the second loop of \<open>deleteDescBackup\<close> starts (none
  when the first loop returns early), each with the links found for it.
\<close>

definition candidates ::
  "'fs share \<Rightarrow> host \<Rightarrow> SMB \<Rightarrow> string \<Rightarrow> bool \<Rightarrow> 'fs \<Rightarrow> (path \<times> ptr option) list" where
  "candidates sh h s ofsPart safety fs =
     (case collectAll sh h s ofsPart safety fs RetentionPeriodsList
             \<lparr>heap = [], filesMap = [], filesToDeleteMap = [], readErrs = []\<rparr> of
        Inl r \<Rightarrow> []
      | Inr c \<Rightarrow> filesToDeleteMap c)"

definition candidateLinks ::
  "'fs share \<Rightarrow> host \<Rightarrow> SMB \<Rightarrow> string \<Rightarrow> bool \<Rightarrow> 'fs \<Rightarrow> (path \<times> fileLinks option) list" where
  "candidateLinks sh h s ofsPart safety fs =
     (case collectAll sh h s ofsPart safety fs RetentionPeriodsList
             \<lparr>heap = [], filesMap = [], filesToDeleteMap = [], readErrs = []\<rparr> of
        Inl r \<Rightarrow> []
      | Inr c \<Rightarrow> map (\<lambda>(p, a). (p, map_option ((!) (heap c)) a)) (filesToDeleteMap c))"

text \<open>
  Two properties of lists of calls, used to describe what one candidate's turn may issue:
  the link parts rename only the candidate and remove only paths that are no candidates;
  a whole turn may in addition remove the candidate, but then renames nothing.
\<close>

definition linkCalls :: "(path \<times> ptr option) list \<Rightarrow> path \<Rightarrow> call list \<Rightarrow> bool" where
  "linkCalls D file cs =
     ((\<forall>p q. RenameCall p q \<in> set cs \<longrightarrow> p = file) \<and>
      (\<forall>p. RemoveCall p \<in> set cs \<longrightarrow> \<not> toDel D p))"

definition stepCalls :: "(path \<times> ptr option) list \<Rightarrow> path \<Rightarrow> call list \<Rightarrow> bool" where
  "stepCalls D file cs =
     ((\<forall>p q. RenameCall p q \<in> set cs \<longrightarrow> p = file) \<and>
      (\<forall>p. RemoveCall p \<in> set cs \<longrightarrow>
           \<not> toDel D p \<or> (p = file \<and> (\<forall>q. RenameCall file q \<notin> set cs))))"

text \<open>
  Lists of calls, one for each of the first candidates of an enumeration, in its order:
  every list is what the turn of its candidate may issue.
\<close>

fun inTurn :: "(path \<times> ptr option) list \<Rightarrow> path list \<Rightarrow> call list list \<Rightarrow> bool" where
  "inTurn D ks [] = True"
| "inTurn D [] (b # bs) = False"
| "inTurn D (k # ks) (b # bs) = (stepCalls D k b \<and> inTurn D ks bs)"





text \<open>
  For delivery: a host on which the temporary archive \<open>/tmp/o.tar\<close> and its sidecar
  \<open>/tmp/o.tar.inc\<close> exist, and whose resolver for incremental backups answers with a
  destination for the archive and another one for the metadata, and no links.
\<close>

definition incDeliveryHost :: host where
  "incDeliveryHost =
     unixHost\<lparr>
       GetLimitedFileReader :=
         (\<lambda>p. if p = ''/tmp/o.tar'' then Inr ''TAR''
              else if p = ''/tmp/o.tar.inc'' then Inr ''INC''
              else Inl (NotExist p)),
       GetIncBackupDstAndLinks :=
         (\<lambda>tmp ofs root.
            Inr (''b/o/year_2024/month_03/day_01/o.tar'',
                 ''b/o/year_2024/inc_meta_info/o.inc'', []))\<rparr>"

section \<open>Describing a run of a job\<close>

text \<open>
  What a run of \<open>DoBackup\<close> does is read off the machine: \<open>observed sys\<close> is \<open>sys\<close> with a
  list beside its state, to which every operation that \<open>DoBackup\<close> can call appends what
  it was called with and what it answered, together with the clock where the run reads
  it (before \<open>os.MkdirAll\<close>, which is when \<open>startTime\<close> is taken, and after
  \<open>createTmpBackup\<close> and \<open>os.Stat\<close>). Of the job that \<open>Storages.Delivery\<close> is given the
  list has the dumped objects. \<open>seen\<close> is the list of a whole run.
\<close>

datatype obs =
    MkdirAllSeen path int "error option"
  | CreateTmpBackupSeen string path "error option" int
  | StatSeen path "error + int" int
  | DeliverySeen "(string \<times> DumpObject) list" "error list"

definition observed :: "('w, 'tgt) system \<Rightarrow> ('w \<times> obs list, 'tgt) system" where
  "observed sys =
     \<lparr>Now = (\<lambda>(w, l). Now sys w),
      GetFileFullPath = GetFileFullPath sys,
      PathDir = PathDir sys,
      OsMkdirAll =
        (\<lambda>p (w, l). case OsMkdirAll sys p w of
                       (res, w') \<Rightarrow> (res, (w', l @ [MkdirAllSeen p (Now sys w) res]))),
      Stat =
        (\<lambda>p (w, l). case Stat sys p w of
                       (res, w') \<Rightarrow> (res, (w', l @ [StatSeen p res (Now sys w')]))),
      Delivery =
        (\<lambda>j (w, l). case Delivery sys j w of
                       (errParts, jobCalls, w') \<Rightarrow>
                         (errParts, jobCalls, (w', l @ [DeliverySeen (dumpedObjects j) errParts]))),
      rangeTargets = rangeTargets sys,
      gzipOf = gzipOf sys,
      createTmpBackup =
        (\<lambda>j p ofs tgt (w, l). case createTmpBackup sys j p ofs tgt w of
                       (res, w') \<Rightarrow> (res, (w', l @ [CreateTmpBackupSeen ofs p res (Now sys w')])))\<rparr>"


text \<open>The state of a run under observation without the list.\<close>

definition forget :: "('w \<times> obs list, 'tgt) run \<Rightarrow> ('w, 'tgt) run" where
  "forget r = \<lparr>jobState = jobState r, world = fst (world r), jobErrs = jobErrs r\<rparr>"
















definition demoTools :: "nat tools" where
  "demoTools =
     \<lparr>Exec = (\<lambda>cmd args w. (None, Suc w)),
      GetConnUrl = (\<lambda>cp. ''postgres://'' @ User cp @ ''/'' @ Database cp),
      GetConnect = (\<lambda>url w. (None, Suc w)),
      Ping = (\<lambda>url w. (None, Suc w)),
      Start = (\<lambda>cmd args w. (None, Suc w)),
      Wait = (\<lambda>w. (None, Suc w)),
      Tar = (\<lambda>opts w. (None, Suc w)),
      OsRemoveAll = (\<lambda>p w. Suc w),
      PathJoin = unixJoin,
      ToolsDir = unixDir,
      DateTimeNow = (\<lambda>unit. ''2024-03-01_00-00'')\<rparr>"

definition demoParams :: "string list \<Rightarrow> JobParams" where
  "demoParams keys =
     \<lparr>JobName = ''pg'', TmpDir = ''/tmp'', NeedToMakeBackup = True, SafetyBackup = False,
      DeferredCopying = False, DiskRateLimit = 0,
      Sources =
        [\<lparr>SourceName = ''main'', ConnectParams = \<lparr>User = ''backup@prod'', Database = []\<rparr>,
          ExtraKeys = keys, Gzip = True, IsSlave = False\<rparr>]\<rparr>"

section \<open>Rotation switched off\<close>

text \<open>
  C9. On a storage whose rotation is disabled, \<open>DeleteOldBackups\<close> returns nil for every
  job, target and \<open>full\<close> flag, issues no call on the share and leaves the remote state as
  it found it.
\<close>

theorem DeleteOldBackups_disabled:
  "\<not> rotateEnabled s \<Longrightarrow> DeleteOldBackups sh h s ofsPart job full fs = (ReturnNil, fs, [])"
  by (simp add: DeleteOldBackups_def)

theorem DeleteOldBackups_disabled_witness:
  "\<not> rotateEnabled (exampleSMB\<lparr>rotateEnabled := False\<rparr>) \<and>
   DeleteOldBackups (memShare []) countHost (exampleSMB\<lparr>rotateEnabled := False\<rparr>) ''o''
     (descJob False) True linkedBuckets = (ReturnNil, linkedBuckets, [])"
  using DeleteOldBackups_disabled
          [of "exampleSMB\<lparr>rotateEnabled := False\<rparr>" "memShare []" countHost "''o''"
              "descJob False" True linkedBuckets]
  by simp

section \<open>Count mode\<close>

lemma sorted_take_drop:
  assumes "sorted (map f ys)" and "c \<in> set (take k ys)" and "r \<in> set (drop k ys)"
  shows "f c \<le> f r"
proof -
  have "sorted (map f (take k ys) @ map f (drop k ys))"
    using assms(1) by (simp flip: map_append)
  then show ?thesis
    using assms(2,3) by (auto simp: sorted_append)
qed

text \<open>
  C1, as the code has it. In count mode with count \<open>N\<close> the selection keeps
  \<open>N\<close> entries when the job's safety flag is set and \<open>N - 1\<close> when it is not (one entry
  more with the flag than without it): the entries split into the candidates and the
  kept ones, the kept ones are as many as that number allows, and no kept entry is older
  than a candidate. The candidates are what \<open>deleteDescBackup\<close> enters into
  \<open>filesToDeleteMap\<close>.
\<close>

theorem selectCount_keeps_newest:
  assumes "0 \<le> keep" and "keep = (if safety then N else N - 1)"
  shows "\<exists>cands kept. selectCount safety N smbFiles = Some cands
           \<and> mset cands + mset kept = mset smbFiles
           \<and> length kept = min (nat keep) (length smbFiles)
           \<and> (\<forall>c\<in>set cands. \<forall>k\<in>set kept. ModTime c \<le> ModTime k)"
proof -
  define ys where "ys = sort_key ModTime smbFiles"
  define n where "n = length ys - nat keep"
  have len: "length ys = length smbFiles"
    by (simp add: ys_def)
  have sel: "selectCount safety N smbFiles = Some (take n ys)"
    using assms by (auto simp: selectCount_def Let_def ys_def n_def nat_diff_distrib)
  have m: "mset (take n ys) + mset (drop n ys) = mset smbFiles"
    by (simp add: ys_def flip: mset_append)
  have l: "length (drop n ys) = min (nat keep) (length smbFiles)"
    using len by (simp add: n_def)
  have o: "\<forall>c\<in>set (take n ys). \<forall>k\<in>set (drop n ys). ModTime c \<le> ModTime k"
    using sorted_take_drop[of ModTime ys] by (auto simp: ys_def)
  show ?thesis
    using sel m l o by blast
qed

theorem selectCount_keeps_newest_witness:
  "(0::int) \<le> 1 \<and> (1::int) = (if False then 2 else 2 - 1) \<and>
   (\<exists>cands kept.
      selectCount False 2 (threeEntries) = Some cands
      \<and> mset cands + mset kept = mset (threeEntries)
      \<and> length kept = min (nat 1) (length (threeEntries))
      \<and> (\<forall>c\<in>set cands. \<forall>k\<in>set kept. ModTime c \<le> ModTime k))"
proof -
  have keep: "(0::int) \<le> 1" "(1::int) = (if False then 2 else 2 - 1)"
    by simp_all
  from selectCount_keeps_newest [OF keep, of "threeEntries"] keep
  show ?thesis by blast
qed

text \<open>
  The claim as the spec words it (count 2 keeps the 2 newest, 3 with the safety flag)
  fails on the monthly bucket of three: without the flag only \<open>c\<close> is left, with it \<open>b\<close>
  and \<open>c\<close>.
\<close>

theorem count_two_keeps_one_counterexample:
  "memReadDir ''b/o/monthly''
     (fst (snd (DeleteOldBackups (memShare []) countHost exampleSMB ''o'' (descJob False) False
                  monthlyBucket)))
     = Inr [\<lparr>Name = ''c'', IsSymlink = False, ModTime = 3\<rparr>]
   \<and> memReadDir ''b/o/monthly''
     (fst (snd (DeleteOldBackups (memShare []) countHost exampleSMB ''o'' (descJob True) False
                  monthlyBucket)))
     = Inr [\<lparr>Name = ''b'', IsSymlink = False, ModTime = 2\<rparr>,
            \<lparr>Name = ''c'', IsSymlink = False, ModTime = 3\<rparr>]"
  by code_simp

section \<open>Reconciling the candidates of descending rotation\<close>

subsection \<open>The calls of the parts\<close>

lemma issue_calls:
  "issue opn c st = (r, st') \<Longrightarrow> calls st' = calls st @ [c] \<and> errs st' = errs st"
  by (auto simp: issue_def split: prod.splits)

lemma appendErr_calls [simp]: "calls (appendErr e st) = calls st"
  by (simp add: appendErr_def)

lemma appendErr_remote [simp]: "remote (appendErr e st) = remote st"
  by (simp add: appendErr_def)

lemma moveFile_calls:
  assumes "moveFile sh old new st = (r, st')"
  shows "(r \<noteq> None \<and> calls st' = calls st @ [RemoveCall new])
       \<or> calls st' = calls st @ [RemoveCall new, RenameCall old new]"
  using assms
  by (auto simp: moveFile_def split: prod.splits option.splits dest!: issue_calls)

lemma weeklyPart_calls:
  assumes "weeklyPart sh h D file fl st = (c, delFile, moved, st')"
  shows "\<exists>new. calls st' = calls st @ new \<and> linkCalls D file new \<and> (delFile \<longrightarrow> new = [])"
  using assms
  apply (simp add: weeklyPart_def Let_def split: if_splits prod.splits option.splits)
  apply (auto simp: linkCalls_def dest!: issue_calls moveFile_calls)
  done

lemma dailyPart_calls:
  assumes "dailyPart sh D file fl delFile moved st = (delFile', st')"
  shows "\<exists>new. calls st' = calls st @ new \<and> linkCalls D file new \<and> (delFile' \<longrightarrow> new = [] \<and> delFile)"
  using assms
  apply (simp add: dailyPart_def Let_def split: if_splits prod.splits option.splits)
  apply (auto simp: linkCalls_def dest!: issue_calls moveFile_calls)
  done

lemma removePart_calls:
  "calls (removePart sh file delFile st) = calls st @ (if delFile then [RemoveCall file] else [])"
  by (auto simp: removePart_def split: prod.splits option.splits dest!: issue_calls)

lemma reconcile_calls:
  assumes "reconcile sh h D file fl st = (c, st')"
  shows "\<exists>new. calls st' = calls st @ new \<and> stepCalls D file new"
proof -
  obtain c1 delFile moved st1 where w: "weeklyPart sh h D file fl st = (c1, delFile, moved, st1)"
    by (metis prod_cases4)
  from weeklyPart_calls[OF w] obtain n1 where
    n1: "calls st1 = calls st @ n1" "linkCalls D file n1" "delFile \<longrightarrow> n1 = []" by blast
  show ?thesis
  proof (cases c1)
    case Break
    then have "st' = st1" using assms w by (simp add: reconcile_def)
    then show ?thesis using n1 by (auto simp: stepCalls_def linkCalls_def)
  next
    case Continue
    obtain delFile' st2 where d: "dailyPart sh D file fl delFile moved st1 = (delFile', st2)"
      by (metis surj_pair)
    from dailyPart_calls[OF d] obtain n2 where
      n2: "calls st2 = calls st1 @ n2" "linkCalls D file n2" "delFile' \<longrightarrow> n2 = [] \<and> delFile" by blast
    have st': "st' = removePart sh file delFile' st2"
      using assms w d Continue by (simp add: reconcile_def)
    have "calls st' = calls st @ (n1 @ n2 @ (if delFile' then [RemoveCall file] else []))"
      using n1(1) n2(1) by (simp add: st' removePart_calls)
    moreover have "stepCalls D file (n1 @ n2 @ (if delFile' then [RemoveCall file] else []))"
      using n1(2,3) n2(2,3) by (auto simp: stepCalls_def linkCalls_def)
    ultimately show ?thesis by blast
  qed
qed

lemma reconcileAll_calls:
  assumes "distinct (map fst es)" and "\<forall>k\<in>fst ` set es. toDel D k"
  shows "\<exists>new. calls (snd (reconcileAll sh h hp D es st)) = calls st @ new
           \<and> (\<forall>p q. RenameCall p q \<in> set new \<longrightarrow> p \<in> fst ` set es)
           \<and> (\<forall>p. RemoveCall p \<in> set new \<longrightarrow> \<not> toDel D p \<or> (p \<in> fst ` set es \<and> (\<forall>q. RenameCall p q \<notin> set new)))"
  using assms
proof (induction sh h hp D es st rule: reconcileAll.induct)
  case (1 sh h hp D st)
  then show ?case by simp
next
  case (2 sh h hp D f rest st)
  then show ?case by simp
next
  case (3 sh h hp D f a rest st)
  obtain c st1 where r: "reconcile sh h D f (hp ! a) st = (c, st1)"
    by (metis surj_pair)
  from reconcile_calls[OF r] obtain n1 where
    n1: "calls st1 = calls st @ n1" "stepCalls D f n1" by blast
  show ?case
  proof (cases c)
    case Break
    then show ?thesis using r n1 by (auto simp: stepCalls_def)
  next
    case Continue
    have "distinct (map fst rest)" "\<forall>k\<in>fst ` set rest. toDel D k"
      using "3.prems" by auto
    from "3.IH"[OF r[symmetric] Continue this] obtain n2 where
      n2: "calls (snd (reconcileAll sh h hp D rest st1)) = calls st1 @ n2"
          "\<forall>p q. RenameCall p q \<in> set n2 \<longrightarrow> p \<in> fst ` set rest"
          "\<forall>p. RemoveCall p \<in> set n2 \<longrightarrow> \<not> toDel D p \<or> (p \<in> fst ` set rest \<and> (\<forall>q. RenameCall p q \<notin> set n2))"
      by blast
    have notin: "f \<notin> fst ` set rest" and del: "toDel D f"
      using "3.prems" by auto
    have "calls (snd (reconcileAll sh h hp D ((f, Some a) # rest) st)) = calls st @ (n1 @ n2)"
      using r Continue n1(1) n2(1) by simp
    moreover have "\<forall>p q. RenameCall p q \<in> set (n1 @ n2) \<longrightarrow> p \<in> fst ` set ((f, Some a) # rest)"
      using n1(2) n2(2) by (auto simp: stepCalls_def)
    moreover have "\<forall>p. RemoveCall p \<in> set (n1 @ n2) \<longrightarrow> \<not> toDel D p \<or>
        (p \<in> fst ` set ((f, Some a) # rest) \<and> (\<forall>q. RenameCall p q \<notin> set (n1 @ n2)))"
    proof (intro allI impI)
      fix p
      assume "RemoveCall p \<in> set (n1 @ n2)"
      then consider "RemoveCall p \<in> set n1" | "RemoveCall p \<in> set n2"
        by auto
      then show "\<not> toDel D p \<or>
        (p \<in> fst ` set ((f, Some a) # rest) \<and> (\<forall>q. RenameCall p q \<notin> set (n1 @ n2)))"
      proof cases
        case 1
        then have "\<not> toDel D p \<or> (p = f \<and> (\<forall>q. RenameCall f q \<notin> set n1))"
          using n1(2) unfolding stepCalls_def by blast
        moreover have "\<forall>q. RenameCall f q \<notin> set n2"
          using n2(2) notin by blast
        ultimately show ?thesis by auto
      next
        case 2
        then have "\<not> toDel D p \<or> (p \<in> fst ` set rest \<and> (\<forall>q. RenameCall p q \<notin> set n2))"
          using n2(3) by blast
        moreover have "p \<in> fst ` set rest \<longrightarrow> (\<forall>q. RenameCall p q \<notin> set n1)"
          using n1(2) notin unfolding stepCalls_def by blast
        ultimately show ?thesis by auto
      qed
    qed
    ultimately show ?thesis by blast
  qed
qed



lemma alloc_toDelete [simp]: "filesToDeleteMap (alloc fPath c) = filesToDeleteMap c"
  by (simp add: alloc_def)

lemma scanFile_toDelete [simp]:
  "filesToDeleteMap (scanFile sh h fs p bakDir c file) = filesToDeleteMap c"
  by (simp add: scanFile_def Let_def split: sum.splits option.splits)

lemma foldl_scanFile_toDelete [simp]:
  "filesToDeleteMap (foldl (scanFile sh h fs p bakDir) c files) = filesToDeleteMap c"
  by (induction files arbitrary: c) simp_all

lemma markFile_distinct:
  "distinct (map fst (filesToDeleteMap c)) \<Longrightarrow>
   distinct (map fst (filesToDeleteMap (markFile h bakDir c file)))"
  by (simp add: markFile_def Let_def distinct_update)

lemma foldl_markFile_distinct:
  "distinct (map fst (filesToDeleteMap c)) \<Longrightarrow>
   distinct (map fst (filesToDeleteMap (foldl (markFile h bakDir) c files)))"
  by (induction files arbitrary: c) (simp_all add: markFile_distinct)

lemma collectAll_distinct:
  "collectAll sh h s ofsPart safety fs ps c = Inr c' \<Longrightarrow>
   distinct (map fst (filesToDeleteMap c)) \<Longrightarrow> distinct (map fst (filesToDeleteMap c'))"
proof (induction ps arbitrary: c)
  case Nil
  then show ?case by simp
next
  case (Cons p ps)
  from Cons.prems show ?case
    by (auto simp: Let_def foldl_markFile_distinct
          split: prod.splits if_splits sum.splits option.splits
          dest!: Cons.IH)
qed

lemma rangeMap_keys:
  "map fst (rangeMap order m) = filter (\<lambda>k. map_of m k \<noteq> None) (order (map fst m))"
proof -
  have "map fst (List.map_filter (\<lambda>k. map_option (Pair k) (map_of m k)) ks)
          = filter (\<lambda>k. map_of m k \<noteq> None) ks" for ks
    by (induction ks) (auto split: option.splits)
  then show ?thesis by (simp add: rangeMap_def)
qed

subsection \<open>Moves and removals in one pass\<close>

lemma runCalls_append:
  "runCalls sh (xs @ ys) fs =
     (case runCalls sh xs fs of
        (e1, fs1) \<Rightarrow> (case runCalls sh ys fs1 of (e2, fs2) \<Rightarrow> (e1 @ e2, fs2)))"
  by (induction xs arbitrary: fs) (auto split: prod.splits)

lemma follows_refl [simp]: "follows sh st st"
  by (auto simp: follows_def intro: exI[of _ "[]"])

lemma follows_trans: "follows sh st st1 \<Longrightarrow> follows sh st1 st2 \<Longrightarrow> follows sh st st2"
proof -
  assume "follows sh st st1" "follows sh st1 st2"
  then obtain n1 n2 where
    n: "calls st1 = calls st @ n1" "remote st1 = snd (runCalls sh n1 (remote st))"
       "calls st2 = calls st1 @ n2" "remote st2 = snd (runCalls sh n2 (remote st1))"
    by (auto simp: follows_def)
  have "calls st2 = calls st @ (n1 @ n2)" using n by simp
  moreover have "remote st2 = snd (runCalls sh (n1 @ n2) (remote st))"
    using n by (simp add: runCalls_append split: prod.splits)
  ultimately show ?thesis unfolding follows_def by blast
qed

lemma follows_appendErr [simp]: "follows sh st (appendErr e st') = follows sh st st'"
  by (simp add: follows_def)

lemma follows_issue:
  "issue (perform sh c) c st = (r, st') \<Longrightarrow> follows sh st st'"
  unfolding follows_def
  by (rule exI[of _ "[c]"]) (auto simp: issue_def split: prod.splits)

lemma follows_moveFile:
  assumes "moveFile sh old new st = (r, st')"
  shows "follows sh st st'"
proof -
  obtain r1 st1 where a: "issue (perform sh (RemoveCall new)) (RemoveCall new) st = (r1, st1)"
    by (metis surj_pair)
  note f1 = follows_issue[OF a]
  show ?thesis
  proof (cases r1)
    case (Some err)
    then show ?thesis using assms a f1 by (simp add: moveFile_def)
  next
    case None
    obtain r2 st2 where
      b: "issue (perform sh (RenameCall old new)) (RenameCall old new) st1 = (r2, st2)"
      by (metis surj_pair)
    have "follows sh st st2" using f1 follows_issue[OF b] by (rule follows_trans)
    then show ?thesis using assms a b None by (cases r2) (simp_all add: moveFile_def)
  qed
qed

lemma follows_weeklyPart:
  assumes "weeklyPart sh h D file fl st = (c, delFile, moved, st')"
  shows "follows sh st st'"
proof (cases "wLink fl \<noteq> [] \<and> \<not> toDel D (wLink fl)")
  case False
  then show ?thesis using assms by (auto simp: weeklyPart_def)
next
  case True
  obtain r st1 where m: "moveFile sh file (wLink fl) st = (r, st1)" by (metis surj_pair)
  define st2 where "st2 = (case r of Some err \<Rightarrow> appendErr err st1 | None \<Rightarrow> st1)"
  have f2: "follows sh st st2"
    using follows_moveFile[OF m] by (simp add: st2_def split: option.splits)
  show ?thesis
  proof (cases "toDel D (dLink fl)")
    case dl: True
    then have "st' = st2" using assms True m by (simp add: weeklyPart_def st2_def Let_def)
    then show ?thesis using f2 by simp
  next
    case dl: False
    obtain r3 st3 where
      a: "issue (perform sh (RemoveCall (dLink fl))) (RemoveCall (dLink fl)) st2 = (r3, st3)"
      by (metis surj_pair)
    have f3: "follows sh st st3" using f2 follows_issue[OF a] by (rule follows_trans)
    show ?thesis
    proof (cases r3)
      case (Some err)
      then have "st' = appendErr err st3"
        using assms True m dl a by (simp add: weeklyPart_def st2_def Let_def)
      then show ?thesis using f3 by simp
    next
      case None
      define relative where "relative = Rel h (Dir h (dLink fl)) (wLink fl)"
      obtain r4 st4 where
        b: "issue (perform sh (SymlinkCall relative (dLink fl))) (SymlinkCall relative (dLink fl)) st3
              = (r4, st4)"
        by (metis surj_pair)
      have f4: "follows sh st st4" using f3 follows_issue[OF b] by (rule follows_trans)
      have "st' = (case r4 of Some err \<Rightarrow> appendErr err st4 | None \<Rightarrow> st4)"
        using assms True m dl a None b
        by (simp add: weeklyPart_def st2_def Let_def relative_def split: option.splits)
      then show ?thesis using f4 by (simp split: option.splits)
    qed
  qed
qed

lemma follows_dailyPart:
  assumes "dailyPart sh D file fl delFile moved st = (delFile', st')"
  shows "follows sh st st'"
proof (cases "dLink fl \<noteq> [] \<and> \<not> moved \<and> \<not> toDel D (dLink fl)")
  case False
  then show ?thesis using assms by (auto simp: dailyPart_def)
next
  case True
  obtain r st1 where m: "moveFile sh file (dLink fl) st = (r, st1)" by (metis surj_pair)
  have "st' = (case r of Some err \<Rightarrow> appendErr err st1 | None \<Rightarrow> st1)"
    using assms True m by (simp add: dailyPart_def split: option.splits)
  then show ?thesis using follows_moveFile[OF m] by (simp split: option.splits)
qed

lemma follows_removePart: "follows sh st (removePart sh file delFile st)"
proof (cases delFile)
  case False
  then show ?thesis by (simp add: removePart_def)
next
  case True
  obtain r st1 where a: "issue (perform sh (RemoveCall file)) (RemoveCall file) st = (r, st1)"
    by (metis surj_pair)
  then have "removePart sh file delFile st = (case r of Some err \<Rightarrow> appendErr err st1 | None \<Rightarrow> st1)"
    using True by (simp add: removePart_def split: option.splits)
  then show ?thesis using follows_issue[OF a] by (simp split: option.splits)
qed

lemma follows_reconcile:
  assumes "reconcile sh h D file fl st = (c, st')"
  shows "follows sh st st'"
proof -
  obtain c1 delFile moved st1 where w: "weeklyPart sh h D file fl st = (c1, delFile, moved, st1)"
    by (metis prod_cases4)
  note f1 = follows_weeklyPart[OF w]
  show ?thesis
  proof (cases c1)
    case Break
    then have "st' = st1" using assms w by (simp add: reconcile_def)
    then show ?thesis using f1 by simp
  next
    case Continue
    obtain delFile' st2 where d: "dailyPart sh D file fl delFile moved st1 = (delFile', st2)"
      by (metis surj_pair)
    have st': "st' = removePart sh file delFile' st2"
      using assms w d Continue by (simp add: reconcile_def)
    have "follows sh st st2" using f1 follows_dailyPart[OF d] by (rule follows_trans)
    then show ?thesis unfolding st' using follows_removePart by (rule follows_trans)
  qed
qed

lemma follows_reconcileAll:
  "follows sh st (snd (reconcileAll sh h hp D es st))"
proof (induction sh h hp D es st rule: reconcileAll.induct)
  case (1 sh h hp D st)
  then show ?case by simp
next
  case (2 sh h hp D f rest st)
  then show ?case by simp
next
  case (3 sh h hp D f a rest st)
  obtain c st1 where r: "reconcile sh h D f (hp ! a) st = (c, st1)"
    by (metis surj_pair)
  note f1 = follows_reconcile[OF r]
  show ?case
  proof (cases c)
    case Break
    then show ?thesis using r f1 by simp
  next
    case Continue
    have "follows sh st1 (snd (reconcileAll sh h hp D rest st1))"
      by (rule "3.IH"[OF r[symmetric] Continue])
    with f1 have "follows sh st (snd (reconcileAll sh h hp D rest st1))"
      by (rule follows_trans)
    then show ?thesis using r Continue by simp
  qed
qed

lemma reconcileAll_blocks:
  "\<exists>blocks. calls (snd (reconcileAll sh h hp D es st)) = calls st @ concat blocks
            \<and> inTurn D (map fst es) blocks"
proof (induction sh h hp D es st rule: reconcileAll.induct)
  case (1 sh h hp D st)
  show ?case by (rule exI[of _ "[]"]) simp
next
  case (2 sh h hp D f rest st)
  show ?case by (rule exI[of _ "[]"]) simp
next
  case (3 sh h hp D f a rest st)
  obtain c st1 where r: "reconcile sh h D f (hp ! a) st = (c, st1)"
    by (metis surj_pair)
  from reconcile_calls[OF r] obtain n1 where
    n1: "calls st1 = calls st @ n1" "stepCalls D f n1" by blast
  show ?case
  proof (cases c)
    case Break
    show ?thesis
      by (rule exI[of _ "[n1]"]) (use r Break n1 in simp)
  next
    case Continue
    from "3.IH"[OF r[symmetric] Continue] obtain blocks where
      b: "calls (snd (reconcileAll sh h hp D rest st1)) = calls st1 @ concat blocks"
         "inTurn D (map fst rest) blocks"
      by blast
    show ?thesis
      by (rule exI[of _ "n1 # blocks"]) (use r Continue n1 b in simp)
  qed
qed

text \<open>
  C8, as the code has it. The calls of one \<open>deleteDescBackup\<close> are those of the turns of
  the candidates, one turn after the other in the order in which the map hands the
  candidates out, up to the turn in which the loop ends; a turn renames only its own
  candidate, and removes only paths that are no candidates or, when it renames nothing,
  its own candidate. So no path is both removed and renamed in one pass, while the
  removal of one candidate may well come before the move of a later one. The remote
  state after the pass is what these calls make of the state before. (The run time
  enumerates every key of a map once, which is the assumption on \<open>rangeKeys\<close>.)
\<close>

theorem candidates_take_turns:
  assumes "\<forall>ks. distinct ks \<longrightarrow> distinct (rangeKeys h ks)"
  shows "(\<exists>blocks.
            snd (snd (deleteDescBackup sh h s ofsPart safety fs)) = concat blocks
          \<and> inTurn (candidates sh h s ofsPart safety fs)
              (map fst (rangeMap (rangeKeys h) (candidates sh h s ofsPart safety fs))) blocks)
       \<and> \<not> (RemoveCall p \<in> set (snd (snd (deleteDescBackup sh h s ofsPart safety fs)))
           \<and> RenameCall p q \<in> set (snd (snd (deleteDescBackup sh h s ofsPart safety fs))))
       \<and> fst (snd (deleteDescBackup sh h s ofsPart safety fs))
           = snd (runCalls sh (snd (snd (deleteDescBackup sh h s ofsPart safety fs))) fs)"
proof (cases "collectAll sh h s ofsPart safety fs RetentionPeriodsList
                \<lparr>heap = [], filesMap = [], filesToDeleteMap = [], readErrs = []\<rparr>")
  case (Inl r)
  then have "snd (deleteDescBackup sh h s ofsPart safety fs) = (fs, [])"
    by (simp add: deleteDescBackup_def)
  then show ?thesis
    by (auto intro: exI[of _ "[]"])
next
  case (Inr c)
  define D where "D = filesToDeleteMap c"
  define es where "es = rangeMap (rangeKeys h) D"
  define st0 :: "'a pass" where "st0 = \<lparr>errs = readErrs c, remote = fs, calls = []\<rparr>"
  define st' where "st' = snd (reconcileAll sh h (heap c) D es st0)"
  have cand: "candidates sh h s ofsPart safety fs = D"
    using Inr by (simp add: candidates_def D_def)
  have res: "snd (deleteDescBackup sh h s ofsPart safety fs) = (remote st', calls st')"
    using Inr
    by (auto simp: deleteDescBackup_def D_def es_def st0_def st'_def split: prod.splits bool.splits)
  have "distinct (map fst D)"
    using collectAll_distinct[OF Inr] by (simp add: D_def)
  then have dist: "distinct (map fst es)"
    using assms by (simp add: es_def rangeMap_keys)
  have keys: "\<forall>k\<in>fst ` set es. toDel D k"
  proof
    fix k assume "k \<in> fst ` set es"
    then have "k \<in> set (map fst es)" by simp
    then show "toDel D k" by (simp add: es_def rangeMap_keys toDel_def)
  qed
  from reconcileAll_calls[OF dist keys, of sh h "heap c" st0] obtain new where
    new: "calls st' = calls st0 @ new"
         "\<forall>p q. RenameCall p q \<in> set new \<longrightarrow> p \<in> fst ` set es"
         "\<forall>p. RemoveCall p \<in> set new \<longrightarrow> \<not> toDel D p \<or> (p \<in> fst ` set es \<and> (\<forall>q. RenameCall p q \<notin> set new))"
    unfolding st'_def by blast
  have both: "\<not> (RemoveCall p \<in> set (calls st') \<and> RenameCall p q \<in> set (calls st'))"
    using new keys by (auto simp: st0_def)
  from reconcileAll_blocks[of sh h "heap c" D es st0] obtain blocks where
    blocks: "calls st' = concat blocks" "inTurn D (map fst es) blocks"
    by (auto simp: st'_def st0_def)
  have "follows sh st0 st'"
    unfolding st'_def by (rule follows_reconcileAll)
  then have state: "remote st' = snd (runCalls sh (calls st') fs)"
    by (auto simp: follows_def st0_def)
  show ?thesis
    unfolding res cand using both blocks state by (auto simp: es_def)
qed

theorem candidates_take_turns_witness:
  "RenameCall ''b/o/monthly/b'' ''b/o/weekly/x''
     \<in> set (snd (snd (deleteDescBackup (memShare []) countHost exampleSMB ''o'' False linkedBuckets)))
   \<and> RemoveCall ''b/o/monthly/b''
     \<notin> set (snd (snd (deleteDescBackup (memShare []) countHost exampleSMB ''o'' False linkedBuckets)))
   \<and> fst (snd (deleteDescBackup (memShare []) countHost exampleSMB ''o'' False linkedBuckets))
       = snd (runCalls (memShare [])
                (snd (snd (deleteDescBackup (memShare []) countHost exampleSMB ''o'' False
                             linkedBuckets))) linkedBuckets)"
proof -
  have keys: "\<forall>ks. distinct ks \<longrightarrow> distinct (rangeKeys countHost ks)"
    by (simp add: countHost_def unixHost_def)
  have moved: "RenameCall ''b/o/monthly/b'' ''b/o/weekly/x''
     \<in> set (snd (snd (deleteDescBackup (memShare []) countHost exampleSMB ''o'' False linkedBuckets)))"
    by code_simp
  from candidates_take_turns [OF keys, of "memShare []" exampleSMB "''o''" False linkedBuckets
         "''b/o/monthly/b''" "''b/o/weekly/x''"] moved
  show ?thesis by blast
qed

text \<open>
  The order the spec asks for (every move before any removal) does not hold: on the
  linked buckets, with the candidates taken in the order \<open>a\<close>, \<open>b\<close>, the removal of \<open>a\<close>
  is the first call and the move of \<open>b\<close> comes after it.
\<close>

theorem removal_before_move_counterexample:
  "snd (snd (deleteDescBackup (memShare []) countHost exampleSMB ''o'' False linkedBuckets)) =
     [RemoveCall ''b/o/monthly/a'',
      RemoveCall ''b/o/weekly/x'', RenameCall ''b/o/monthly/b'' ''b/o/weekly/x'',
      RemoveCall ''b/o/daily/y'', SymlinkCall ''../weekly/x'' ''b/o/daily/y'']"
  by code_simp


subsection \<open>A failing operation\<close>

text \<open>
  C4 at an input where the code leaves the claim. The candidates are taken in the order
  \<open>b\<close>, \<open>a\<close>, and the removal of the daily link of \<open>b\<close> fails: the error is returned in
  the multi-error, but the \<open>break\<close> at line 290 ends the loop, and \<open>a\<close>, the remaining
  candidate, is never removed. The same happens on a share where nothing is made to fail
  when a candidate has a weekly link and no daily one: the code then asks to remove the
  empty path, which fails.
\<close>

theorem failed_link_removal_ends_pass:
  "deleteDescBackup (memShare [RemoveCall ''b/o/daily/y'']) (countHost\<lparr>rangeKeys := rev\<rparr>)
     exampleSMB ''o'' False linkedBuckets =
     (ReturnMulti [Failure ''b/o/daily/y''],
      [(''b/o/monthly/a'', File 1 []), (''b/o/monthly/c'', File 3 []),
       (''b/o/daily/y'', Link 2 ''../monthly/b''), (''b/o/weekly/x'', File 2 [])],
      [RemoveCall ''b/o/weekly/x'', RenameCall ''b/o/monthly/b'' ''b/o/weekly/x'',
       RemoveCall ''b/o/daily/y''])
   \<and> deleteDescBackup (memShare []) (countHost\<lparr>rangeKeys := rev\<rparr>) exampleSMB ''o'' False
       (monthlyBucket @ [(''b/o/weekly/x'', Link 2 ''../monthly/b'')]) =
     (ReturnMulti [NotExist []],
      [(''b/o/monthly/a'', File 1 []), (''b/o/monthly/c'', File 3 []),
       (''b/o/weekly/x'', File 2 [])],
      [RemoveCall ''b/o/weekly/x'', RenameCall ''b/o/monthly/b'' ''b/o/weekly/x'',
       RemoveCall []])"
  by code_simp

subsection \<open>A candidate without links\<close>

text \<open>
  C2 at inputs where the code leaves the claim. In the monthly bucket with a weekly
  symlink to \<open>b\<close> and no daily one, the candidates are \<open>a\<close>, with no link, and \<open>b\<close>, with
  the weekly link. Taken in the order \<open>b\<close>, \<open>a\<close>: the turn of \<open>b\<close> moves it to the weekly
  path, as the claim says, and then asks the share to remove the empty path, the daily
  link that \<open>b\<close> does not have; that fails and the \<open>break\<close> at line 290 ends the loop, so
  \<open>a\<close>, a candidate no link points at, is not removed. The same happens to \<open>a\<close> on the
  buckets in which \<open>b\<close> has both links, when the removal of the daily link fails.
\<close>

theorem candidate_without_links_survives:
  "candidateLinks (memShare []) (countHost\<lparr>rangeKeys := rev\<rparr>) exampleSMB ''o'' False weeklyLinked =
     [(''b/o/monthly/a'', Some \<lparr>wLink = [], dLink = []\<rparr>),
      (''b/o/monthly/b'', Some \<lparr>wLink = ''b/o/weekly/x'', dLink = []\<rparr>)]
   \<and> map fst (rangeMap (rangeKeys (countHost\<lparr>rangeKeys := rev\<rparr>))
                 (candidates (memShare []) (countHost\<lparr>rangeKeys := rev\<rparr>) exampleSMB ''o'' False
                    weeklyLinked)) =
       [''b/o/monthly/b'', ''b/o/monthly/a'']
   \<and> fst (reconcile (memShare []) (countHost\<lparr>rangeKeys := rev\<rparr>)
            (candidates (memShare []) (countHost\<lparr>rangeKeys := rev\<rparr>) exampleSMB ''o'' False
               weeklyLinked)
            ''b/o/monthly/b'' \<lparr>wLink = ''b/o/weekly/x'', dLink = []\<rparr>
            \<lparr>errs = [], remote = weeklyLinked, calls = []\<rparr>) = Break
   \<and> snd (snd (deleteDescBackup (memShare []) (countHost\<lparr>rangeKeys := rev\<rparr>) exampleSMB ''o''
                  False weeklyLinked)) =
       [RemoveCall ''b/o/weekly/x'', RenameCall ''b/o/monthly/b'' ''b/o/weekly/x'', RemoveCall []]
   \<and> map_of (fst (snd (deleteDescBackup (memShare []) (countHost\<lparr>rangeKeys := rev\<rparr>) exampleSMB
                          ''o'' False weeklyLinked))) ''b/o/monthly/a'' = Some (File 1 [])
   \<and> candidateLinks (memShare [RemoveCall ''b/o/daily/y'']) (countHost\<lparr>rangeKeys := rev\<rparr>)
       exampleSMB ''o'' False linkedBuckets =
     [(''b/o/monthly/a'', Some \<lparr>wLink = [], dLink = []\<rparr>),
      (''b/o/monthly/b'', Some \<lparr>wLink = ''b/o/weekly/x'', dLink = ''b/o/daily/y''\<rparr>)]
   \<and> map_of (fst (snd (deleteDescBackup (memShare [RemoveCall ''b/o/daily/y''])
                          (countHost\<lparr>rangeKeys := rev\<rparr>) exampleSMB ''o'' False linkedBuckets)))
       ''b/o/monthly/a'' = Some (File 1 [])"
  by code_simp


section \<open>Incremental rotation\<close>

















section \<open>Delivery of an incremental backup\<close>

text \<open>
  C3 at an input where the code leaves the claim. The resolver gives a metadata
  destination, and the delivery succeeds (its result is nil); yet the sidecar was copied
  to the destination of the archive (line 113 passes \<open>bakDstPath\<close>) and overwritten there
  by the archive. No call names the metadata destination, and afterwards the share holds
  the archive alone.
\<close>

theorem sidecar_uploaded_to_backup_path:
  "DeliveryBackup (memShare []) incDeliveryHost exampleSMB ''/tmp/o.tar'' ''o''
     (typeString IncFiles) [] =
     (None,
      [(''b/o/year_2024/month_03/day_01/o.tar'', File 0 ''TAR'')],
      [MkdirAllCall ''b/o/year_2024/month_03/day_01'',
       CreateCall ''b/o/year_2024/month_03/day_01/o.tar'',
       CopyCall ''b/o/year_2024/month_03/day_01/o.tar'' ''INC'',
       MkdirAllCall ''b/o/year_2024/month_03/day_01'',
       CreateCall ''b/o/year_2024/month_03/day_01/o.tar'',
       CopyCall ''b/o/year_2024/month_03/day_01/o.tar'' ''TAR''])"
  by code_simp

section \<open>Runs of \<open>DoBackup\<close>\<close>

subsection \<open>The machine under observation\<close>

lemma observed_simps [simp]:
  "Now (observed sys) (w, l) = Now sys w"
  "GetFileFullPath (observed sys) = GetFileFullPath sys"
  "PathDir (observed sys) = PathDir sys"
  "rangeTargets (observed sys) = rangeTargets sys"
  "gzipOf (observed sys) = gzipOf sys"
  "OsMkdirAll (observed sys) p (w, l) =
     (case OsMkdirAll sys p w of (res, w') \<Rightarrow> (res, (w', l @ [MkdirAllSeen p (Now sys w) res])))"
  "Stat (observed sys) p (w, l) =
     (case Stat sys p w of (res, w') \<Rightarrow> (res, (w', l @ [StatSeen p res (Now sys w')])))"
  "Delivery (observed sys) j (w, l) =
     (case Delivery sys j w of
        (errParts, jobCalls, w') \<Rightarrow>
          (errParts, jobCalls, (w', l @ [DeliverySeen (dumpedObjects j) errParts])))"
  "createTmpBackup (observed sys) j p ofs tgt (w, l) =
     (case createTmpBackup sys j p ofs tgt w of
        (res, w') \<Rightarrow> (res, (w', l @ [CreateTmpBackupSeen ofs p res (Now sys w')])))"
  by (simp_all add: observed_def)


lemma forget_update [simp]:
  "forget (r\<lparr>jobState := j, world := (w, l), jobErrs := es\<rparr>)
     = (forget r)\<lparr>jobState := j, world := w, jobErrs := es\<rparr>"
  "forget (r\<lparr>jobState := j, world := (w, l)\<rparr>) = (forget r)\<lparr>jobState := j, world := w\<rparr>"
  by (simp_all add: forget_def)


lemma SetOfsMetrics_deferred [simp]:
  "deferredCopying (SetOfsMetrics ofs kvs j) = deferredCopying j"
  by (simp add: SetOfsMetrics_def)

lemma SetDumpObjectDelivered_deferred [simp]:
  "deferredCopying (SetDumpObjectDelivered ofs j) = deferredCopying j"
  by (simp add: SetDumpObjectDelivered_def Let_def)

lemma applyJobCall_deferred [simp]:
  "deferredCopying (applyJobCall j c) = deferredCopying j"
  by (cases c) simp_all

lemma foldl_applyJobCall_deferred [simp]:
  "deferredCopying (foldl applyJobCall j cs) = deferredCopying j"
  by (induction cs arbitrary: j) simp_all

lemma deliver_deferred [simp]:
  "deferredCopying (jobState (deliver sys r)) = deferredCopying (jobState r)"
  by (simp add: deliver_def split: prod.splits)

lemma float64_exact: "\<bar>n\<bar> < 2 ^ 53 \<Longrightarrow> float64 n = n"
proof -
  assume a: "\<bar>n\<bar> < 2 ^ 53"
  then have "excess \<bar>n\<bar> = 0" by (subst excess.simps) simp
  then show ?thesis by (simp add: float64_def Let_def mult_sgn_abs)
qed

lemma float64_0 [simp]: "float64 0 = 0"
  by (rule float64_exact) simp

lemma float64_1 [simp]: "float64 1 = 1"
  by (rule float64_exact) simp

lemma appMetrics_SetOfsMetrics [simp]:
  "appMetrics (SetOfsMetrics ofs kvs j) ofs' m =
     (if ofs' = ofs then (case map_of kvs m of Some v \<Rightarrow> v | None \<Rightarrow> appMetrics j ofs' m)
      else appMetrics j ofs' m)"
  by (simp add: SetOfsMetrics_def)

lemma appMetrics_SetDumpObjectDelivered [simp]:
  "appMetrics (SetDumpObjectDelivered ofs j) = appMetrics j"
  by (simp add: SetDumpObjectDelivered_def Let_def)





subsection \<open>The turns of the targets\<close>















subsection \<open>A whole run\<close>






subsection \<open>Deliveries\<close>



subsection \<open>Metrics\<close>




section \<open>\<open>Init\<close> of the base backup job\<close>

lemma update_set_cases:
  "(k', v') \<in> set (AList.update k v al) \<Longrightarrow> (k', v') = (k, v) \<or> (k', v') \<in> set al"
  by (induction al) (auto split: if_splits)

lemma initSources_rejects:
  "\<exists>src\<in>set srcs. \<exists>key\<in>set (ExtraKeys src). matched key \<Longrightarrow>
   \<exists>e. fst (initSources t jp srcs j w) = Inl e"
proof (induction srcs arbitrary: j w)
  case Nil
  then show ?case by simp
next
  case (Cons src rest)
  show ?case
  proof (cases "list_ex matched (ExtraKeys src)")
    case True
    then show ?thesis by simp
  next
    case False
    then have later: "\<exists>src\<in>set rest. \<exists>key\<in>set (ExtraKeys src). matched key"
      using Cons.prems by (auto simp: list_ex_iff)
    show ?thesis
      using False Cons.IH[OF later]
      by (auto simp: Let_def split: prod.splits option.splits)
  qed
qed

lemma initSources_clean:
  "fst (initSources t jp srcs j w) = Inr j' \<Longrightarrow>
   \<forall>tgt\<in>snd ` set (targets j). \<forall>key\<in>set (extraKeys tgt). \<not> matched key \<Longrightarrow>
   \<forall>tgt\<in>snd ` set (targets j'). \<forall>key\<in>set (extraKeys tgt). \<not> matched key"
proof (induction srcs arbitrary: j w)
  case Nil
  then show ?case by simp
next
  case (Cons src rest)
  have ok: "\<not> list_ex matched (ExtraKeys src)"
    using Cons.prems(1) by (auto split: if_splits)
  define cp where "cp = (case Split (User (ConnectParams src)) (CHR ''@'') of
                    user # database # others \<Rightarrow>
                      (ConnectParams src)\<lparr>Database := database, User := user\<rparr>
                  | _ \<Rightarrow> ConnectParams src)"
  define j1 where "j1 = j\<lparr>targets :=
                           AList.update (SourceName src)
                             \<lparr>connUrl = GetConnUrl t cp, extraKeys = ExtraKeys src, gzip = Gzip src\<rparr>
                             (targets j),
                         appMetrics := (appMetrics j)(SourceName src := (\<lambda>m. 0))\<rparr>"
  have clean1: "\<forall>tgt\<in>snd ` set (targets j1). \<forall>key\<in>set (extraKeys tgt). \<not> matched key"
  proof
    fix tgt assume "tgt \<in> snd ` set (targets j1)"
    then obtain k where "(k, tgt) \<in> set (targets j1)" by auto
    then have "tgt = \<lparr>connUrl = GetConnUrl t cp, extraKeys = ExtraKeys src, gzip = Gzip src\<rparr>
               \<or> (k, tgt) \<in> set (targets j)"
      using update_set_cases[of k tgt] by (auto simp: j1_def)
    then show "\<forall>key\<in>set (extraKeys tgt). \<not> matched key"
      using ok Cons.prems(2) by (auto simp: list_ex_iff)
  qed
  from Cons.prems(1) ok obtain w2 where "fst (initSources t jp rest j1 w2) = Inr j'"
    by (auto simp: Let_def j1_def cp_def split: prod.splits option.splits)
  from Cons.IH[OF this clean1] show ?case .
qed

text \<open>
  C10. When some source has an extra key that matches \<open>(-D|--pgdata=)\<close>, \<open>Init\<close> returns
  an error and no job, whatever the programs and the server answer. So in every job that
  \<open>Init\<close> does return no extra key of any target matches, and the command line of
  \<open>pg_basebackup\<close> is these keys followed by the \<open>--dbname\<close> and \<open>--pgdata\<close> arguments
  of the job's own making.
\<close>

theorem Init_rejects_pgdata:
  "((\<exists>src\<in>set (Sources jp). \<exists>key\<in>set (ExtraKeys src). matched key)
      \<longrightarrow> (\<exists>e. fst (Init t jp w) = Inl e))
   \<and> (fst (Init t jp w) = Inr j
      \<longrightarrow> (\<forall>tgt\<in>snd ` set (targets j).
            (\<forall>key\<in>set (extraKeys tgt). \<not> matched key)
            \<and> (\<forall>p. \<exists>rest. basebackupArgs j tgt p =
                   extraKeys tgt @ [''--dbname='' @ connUrl tgt, ''--pgdata='' @ p] @ rest)))"
proof (intro conjI impI)
  assume "\<exists>src\<in>set (Sources jp). \<exists>key\<in>set (ExtraKeys src). matched key"
  from initSources_rejects[OF this] show "\<exists>e. fst (Init t jp w) = Inl e"
    by (auto simp: Init_def split: prod.splits option.splits)
next
  assume ok: "fst (Init t jp w) = Inr j"
  then obtain j0 w2 where
    "fst (initSources t jp (Sources jp) j0 w2) = Inr j" "targets j0 = []"
    by (auto simp: Init_def split: prod.splits option.splits)
  from initSources_clean[OF this(1)] this(2)
  have "\<forall>tgt\<in>snd ` set (targets j). \<forall>key\<in>set (extraKeys tgt). \<not> matched key"
    by simp
  then show "\<forall>tgt\<in>snd ` set (targets j).
            (\<forall>key\<in>set (extraKeys tgt). \<not> matched key)
            \<and> (\<forall>p. \<exists>rest. basebackupArgs j tgt p =
                   extraKeys tgt @ [''--dbname='' @ connUrl tgt, ''--pgdata='' @ p] @ rest)"
    by (auto simp: basebackupArgs_def)
qed

theorem Init_rejects_pgdata_witness:
  "(\<exists>src\<in>set (Sources (demoParams [''--checkpoint=fast'', ''--pgdata=/data''])).
      \<exists>key\<in>set (ExtraKeys src). matched key)
   \<and> (\<exists>e. fst (Init demoTools (demoParams [''--checkpoint=fast'', ''--pgdata=/data'']) 0) = Inl e)"
proof -
  have p: "\<exists>src\<in>set (Sources (demoParams [''--checkpoint=fast'', ''--pgdata=/data''])).
      \<exists>key\<in>set (ExtraKeys src). matched key"
    by (simp add: demoParams_def matched_def)
  from mp [OF conjunct1 [OF Init_rejects_pgdata [where t = demoTools and w = 0]] p] p
  show ?thesis by blast
qed

end
